theory Spec2Isabelle
  imports Main "HOL-Library.AList" "HOL-Library.Option_ord"
begin

section \<open>Authors, magazines and articles: the object model of many_to_many.py\<close>

text \<open>
  The module defines three classes, \<open>Article\<close>, \<open>Author\<close> and \<open>Magazine\<close>, and two
  class-level lists, \<open>Article.all_articles\<close> and \<open>Magazine.all_magazines\<close>. None of the
  classes defines \<open>__eq__\<close> or \<open>__hash__\<close>, so \<open>==\<close> on instances is identity. The model
  therefore has a heap of objects addressed by references, and the two registries hold
  references. The definitions follow \<open>lib/classes/many_to_many.py\<close>; the test file
  repeats the classes, with a \<open>top_publisher\<close> that lacks the check for counts that
  are all zero.
\<close>

subsection \<open>Values, objects, state\<close>

datatype error = ValueError | AttributeError

datatype cls = Article | Author | Magazine

type_synonym ref = nat

text \<open>
  The Python values the model covers: \<open>None\<close>, integers, strings and references to
  instances of the three classes. On these, Python's \<open>==\<close> is HOL's equality and all
  of them are hashable.
\<close>

datatype pyval = PNone | PInt int | PStr string | PRef ref

text \<open>An instance is its class and its attribute dictionary.\<close>

record pyobj =
  cls_of :: cls
  attrs :: "(string \<times> pyval) list"

record state =
  heap :: "pyobj list"
  all_articles :: "ref list"
  all_magazines :: "ref list"

definition init_state :: state where
  "init_state = \<lparr>heap = [], all_articles = [], all_magazines = []\<rparr>"

definition heap_at :: "state \<Rightarrow> ref \<Rightarrow> pyobj option" where
  "heap_at s r = (if r < length (heap s) then Some (heap s ! r) else None)"

text \<open>\<open>isinstance(v, C)\<close> for one of the three classes, and \<open>isinstance(v, str)\<close>.\<close>

definition isinstance :: "state \<Rightarrow> pyval \<Rightarrow> cls \<Rightarrow> bool" where
  "isinstance s v c =
     (case v of
        PRef r \<Rightarrow> (case heap_at s r of Some ob \<Rightarrow> cls_of ob = c | None \<Rightarrow> False)
      | _ \<Rightarrow> False)"

fun isinstance_str :: "pyval \<Rightarrow> bool" where
  "isinstance_str (PStr t) = True"
| "isinstance_str _ = False"

text \<open>
  Calling a class first makes a bare instance (\<open>object.__new__\<close>) and then runs
  \<open>__init__\<close> on it. The new instance gets the next free address.
\<close>

definition new_object :: "cls \<Rightarrow> state \<Rightarrow> ref \<times> state" where
  "new_object c s = (length (heap s), s\<lparr>heap := heap s @ [\<lparr>cls_of = c, attrs = []\<rparr>]\<rparr>)"

text \<open>A plain write into the instance dictionary: \<open>self.a = v\<close> with no property on \<open>a\<close>.\<close>

definition store_attr :: "ref \<Rightarrow> string \<Rightarrow> pyval \<Rightarrow> state \<Rightarrow> state" where
  "store_attr r a v s =
     s\<lparr>heap := (heap s)[r := (heap s ! r)\<lparr>attrs := AList.update a v (attrs (heap s ! r))\<rparr>]\<rparr>"

text \<open>
  Reading \<open>v.a\<close>. On a \<open>Magazine\<close> the names \<open>name\<close> and \<open>category\<close> are properties whose
  getters read \<open>_name\<close> and \<open>_category\<close> (\<open>attr_key\<close> gives the dictionary key that a
  read of an attribute of an instance looks up); every other read goes to the instance
  dictionary under the attribute's own name. A missing attribute, and any of these names on \<open>None\<close>, an integer or a
  string, raises \<open>AttributeError\<close>.
\<close>

fun attr_key :: "cls \<Rightarrow> string \<Rightarrow> string" where
  "attr_key Magazine a =
     (if a = ''name'' then ''_name'' else if a = ''category'' then ''_category'' else a)"
| "attr_key c a = a"

definition getattr :: "state \<Rightarrow> pyval \<Rightarrow> string \<Rightarrow> error + pyval" where
  "getattr s v a =
     (case v of
        PRef r \<Rightarrow>
          (case heap_at s r of
             None \<Rightarrow> Inl AttributeError
           | Some ob \<Rightarrow>
               (case map_of (attrs ob) (attr_key (cls_of ob) a) of
                  None \<Rightarrow> Inl AttributeError
                | Some x \<Rightarrow> Inr x))
      | _ \<Rightarrow> Inl AttributeError)"

subsection \<open>Error propagation and comprehensions\<close>

definition bind_err :: "error + 'a \<Rightarrow> ('a \<Rightarrow> error + 'b) \<Rightarrow> error + 'b" where
  "bind_err m f = (case m of Inl e \<Rightarrow> Inl e | Inr x \<Rightarrow> f x)"

text \<open>\<open>[x for x in xs if p(x)]\<close>, where evaluating \<open>p(x)\<close> may raise.\<close>

fun filter_err :: "('a \<Rightarrow> error + bool) \<Rightarrow> 'a list \<Rightarrow> error + 'a list" where
  "filter_err p [] = Inr []"
| "filter_err p (x # xs) =
     bind_err (p x) (\<lambda>b. bind_err (filter_err p xs) (\<lambda>ys. Inr (if b then x # ys else ys)))"

text \<open>\<open>[f(x) for x in xs]\<close>, where evaluating \<open>f(x)\<close> may raise.\<close>

fun map_err :: "('a \<Rightarrow> error + 'b) \<Rightarrow> 'a list \<Rightarrow> error + 'b list" where
  "map_err f [] = Inr []"
| "map_err f (x # xs) =
     bind_err (f x) (\<lambda>y. bind_err (map_err f xs) (\<lambda>ys. Inr (y # ys)))"

text \<open>
  \<open>list({...})\<close>: the elements of the list without repetition. Python lists a set in hash
  order, which the model does not track; the properties below speak of the elements
  of such a list only, never of their order.
\<close>

definition list_of_set :: "'a list \<Rightarrow> 'a list" where
  "list_of_set xs = remdups xs"

text \<open>
  \<open>{k: f(k) for k in ks}\<close>: a dictionary keeps its keys in the order of their first
  insertion, and a later write to a present key replaces the value in place.
\<close>

fun dict_comp :: "('k \<Rightarrow> error + 'v) \<Rightarrow> 'k list \<Rightarrow> ('k \<times> 'v) list \<Rightarrow> error + ('k \<times> 'v) list" where
  "dict_comp f [] d = Inr d"
| "dict_comp f (k # ks) d = bind_err (f k) (\<lambda>v. dict_comp f ks (AList.update k v d))"

text \<open>
  \<open>max(xs, key=key)\<close>: the running maximum is replaced only by a strictly greater
  element, so the first maximal element is returned; an empty argument raises
  \<open>ValueError\<close>.
\<close>

fun max_from :: "('a \<Rightarrow> 'b::linorder) \<Rightarrow> 'a \<Rightarrow> 'a list \<Rightarrow> 'a" where
  "max_from key best [] = best"
| "max_from key best (x # xs) = max_from key (if key best < key x then x else best) xs"

definition py_max :: "('a \<Rightarrow> 'b::linorder) \<Rightarrow> 'a list \<Rightarrow> error + 'a" where
  "py_max key xs = (case xs of [] \<Rightarrow> Inl ValueError | x # ys \<Rightarrow> Inr (max_from key x ys))"

text \<open>
  \<open>len(v)\<close> of a string. The source calls \<open>len\<close> only on the right of
  \<open>not isinstance(v, str) or ...\<close>, that is, on strings.
\<close>

fun py_len :: "pyval \<Rightarrow> nat" where
  "py_len (PStr t) = length t"
| "py_len _ = 0"

subsection \<open>Article\<close>

text \<open>
  \<open>Article.__init__\<close>: three checks, each raising \<open>ValueError\<close>, then the three
  attribute writes and the append to \<open>Article.all_articles\<close>. The result carries the
  state at the point where the call returned or raised.
\<close>

definition Article_init :: "state \<Rightarrow> pyval \<Rightarrow> pyval \<Rightarrow> pyval \<Rightarrow> (error + ref) \<times> state" where
  "Article_init s0 author magazine title =
     (let (self, s) = new_object Article s0 in
      if \<not> isinstance s author Author then (Inl ValueError, s)
      else if \<not> isinstance s magazine Magazine then (Inl ValueError, s)
      else if \<not> isinstance_str title \<or> \<not> (5 \<le> py_len title \<and> py_len title \<le> 50)
           then (Inl ValueError, s)
      else
        let s = store_attr self ''author'' author s;
            s = store_attr self ''magazine'' magazine s;
            s = store_attr self ''title'' title s
        in (Inr self, s\<lparr>all_articles := all_articles s @ [self]\<rparr>))"

definition get_all_articles :: "state \<Rightarrow> ref list" where
  "get_all_articles s = all_articles s"

subsection \<open>Author\<close>

definition Author_init :: "state \<Rightarrow> pyval \<Rightarrow> (error + ref) \<times> state" where
  "Author_init s0 name =
     (let (self, s) = new_object Author s0 in
      if \<not> isinstance_str name \<or> py_len name = 0 then (Inl ValueError, s)
      else (Inr self, store_attr self ''name'' name s))"

definition Author_articles :: "state \<Rightarrow> pyval \<Rightarrow> error + ref list" where
  "Author_articles s self =
     filter_err (\<lambda>article. bind_err (getattr s (PRef article) ''author'') (\<lambda>v. Inr (v = self)))
       (all_articles s)"

definition Author_add_article :: "state \<Rightarrow> pyval \<Rightarrow> pyval \<Rightarrow> pyval \<Rightarrow> (error + ref) \<times> state" where
  "Author_add_article s self magazine title =
     (if \<not> isinstance s magazine Magazine then (Inl ValueError, s)
      else if \<not> isinstance_str title then (Inl ValueError, s)
      else Article_init s self magazine title)"

subsection \<open>Magazine\<close>

definition Magazine_name_setter :: "state \<Rightarrow> ref \<Rightarrow> pyval \<Rightarrow> (error + unit) \<times> state" where
  "Magazine_name_setter s self v =
     (if \<not> isinstance_str v \<or> \<not> (2 \<le> py_len v \<and> py_len v \<le> 16) then (Inl ValueError, s)
      else (Inr (), store_attr self ''_name'' v s))"

definition Magazine_category_setter :: "state \<Rightarrow> ref \<Rightarrow> pyval \<Rightarrow> (error + unit) \<times> state" where
  "Magazine_category_setter s self v =
     (if \<not> isinstance_str v \<or> py_len v = 0 then (Inl ValueError, s)
      else (Inr (), store_attr self ''_category'' v s))"

text \<open>
  The assignment \<open>obj.a = v\<close> on an instance: on a \<open>Magazine\<close> the names \<open>name\<close> and
  \<open>category\<close> go through the setters; every other assignment, such as
  \<open>article.author = v\<close> or \<open>article.magazine = v\<close>, is a plain write, since neither
  \<open>Article\<close> nor \<open>Author\<close> defines a property. The runs below assign the five data
  attributes only.
\<close>

definition assign_attr :: "state \<Rightarrow> ref \<Rightarrow> string \<Rightarrow> pyval \<Rightarrow> (error + unit) \<times> state" where
  "assign_attr s r a v =
     (if isinstance s (PRef r) Magazine \<and> a = ''name'' then Magazine_name_setter s r v
      else if isinstance s (PRef r) Magazine \<and> a = ''category'' then Magazine_category_setter s r v
      else (Inr (), store_attr r a v s))"

text \<open>
  \<open>Magazine.__init__\<close> assigns \<open>self.name\<close> and \<open>self.category\<close> through the two
  setters and only then appends to \<open>Magazine.all_magazines\<close>.
\<close>

definition Magazine_init :: "state \<Rightarrow> pyval \<Rightarrow> pyval \<Rightarrow> (error + ref) \<times> state" where
  "Magazine_init s0 name category =
     (let (self, s) = new_object Magazine s0 in
      case Magazine_name_setter s self name of
        (Inl e, s) \<Rightarrow> (Inl e, s)
      | (Inr _, s) \<Rightarrow>
          (case Magazine_category_setter s self category of
             (Inl e, s) \<Rightarrow> (Inl e, s)
           | (Inr _, s) \<Rightarrow> (Inr self, s\<lparr>all_magazines := all_magazines s @ [self]\<rparr>)))"

definition Magazine_articles :: "state \<Rightarrow> pyval \<Rightarrow> error + ref list" where
  "Magazine_articles s self =
     filter_err (\<lambda>article. bind_err (getattr s (PRef article) ''magazine'') (\<lambda>v. Inr (v = self)))
       (all_articles s)"

definition Magazine_contributors :: "state \<Rightarrow> pyval \<Rightarrow> error + pyval list" where
  "Magazine_contributors s self =
     bind_err (Magazine_articles s self) (\<lambda>arts.
     bind_err (map_err (\<lambda>article. getattr s (PRef article) ''author'') arts) (\<lambda>as.
     Inr (list_of_set as)))"

subsection \<open>Method calls\<close>

text \<open>
  A call \<open>v.method()\<close> looks the method up on the class of \<open>v\<close>: \<open>Author\<close> and
  \<open>Magazine\<close> both define \<open>articles\<close>, only \<open>Author\<close> defines \<open>magazines\<close>, only
  \<open>Magazine\<close> defines \<open>contributors\<close>; on an instance of another class, on \<open>None\<close>,
  an integer or a string the lookup raises \<open>AttributeError\<close>. (Instance dictionaries
  hold only the data attributes the module writes, so nothing shadows a method.)
  \<open>Magazine_contributors\<close> above is the body of \<open>Magazine.contributors\<close> for a receiver
  that is a \<open>Magazine\<close>, where \<open>self.articles()\<close> is \<open>Magazine.articles\<close>.
\<close>

definition call_articles :: "state \<Rightarrow> pyval \<Rightarrow> error + ref list" where
  "call_articles s v =
     (if isinstance s v Author then Author_articles s v
      else if isinstance s v Magazine then Magazine_articles s v
      else Inl AttributeError)"

definition Author_magazines :: "state \<Rightarrow> pyval \<Rightarrow> error + pyval list" where
  "Author_magazines s self =
     bind_err (call_articles s self) (\<lambda>arts.
     bind_err (map_err (\<lambda>article. getattr s (PRef article) ''magazine'') arts) (\<lambda>ms.
     Inr (list_of_set ms)))"

definition call_magazines :: "state \<Rightarrow> pyval \<Rightarrow> error + pyval list" where
  "call_magazines s v =
     (if isinstance s v Author then Author_magazines s v else Inl AttributeError)"

definition call_contributors :: "state \<Rightarrow> pyval \<Rightarrow> error + pyval list" where
  "call_contributors s v =
     (if isinstance s v Magazine then Magazine_contributors s v else Inl AttributeError)"

definition Author_topic_areas :: "state \<Rightarrow> pyval \<Rightarrow> error + pyval list option" where
  "Author_topic_areas s self =
     bind_err (call_magazines s self) (\<lambda>magazines.
     if magazines = [] then Inr None
     else bind_err (map_err (\<lambda>magazine. getattr s magazine ''category'') magazines) (\<lambda>categories.
          Inr (Some (list_of_set categories))))"

definition Magazine_contributing_authors :: "state \<Rightarrow> pyval \<Rightarrow> error + pyval list option" where
  "Magazine_contributing_authors s self =
     bind_err (call_contributors s self) (\<lambda>authors.
     if authors = [] then Inr None
     else
       bind_err
         (filter_err
            (\<lambda>author.
               bind_err (call_articles s author) (\<lambda>arts.
               bind_err
                 (filter_err
                    (\<lambda>article. bind_err (getattr s (PRef article) ''magazine'') (\<lambda>m. Inr (m = self)))
                    arts) (\<lambda>mine.
               Inr (sum_list (map (\<lambda>article. 1::int) mine) > 2))))
            authors) (\<lambda>frequent_authors.
       Inr (if frequent_authors = [] then None else Some frequent_authors)))"

definition magazine_article_counts :: "state \<Rightarrow> error + (ref \<times> nat) list" where
  "magazine_article_counts s =
     dict_comp (\<lambda>magazine. bind_err (call_articles s (PRef magazine)) (\<lambda>arts. Inr (length arts)))
       (all_magazines s) []"

definition Magazine_top_publisher :: "state \<Rightarrow> error + ref option" where
  "Magazine_top_publisher s =
     (if get_all_articles s = [] then Inr None
      else
        bind_err (magazine_article_counts s) (\<lambda>counts.
        if \<not> list_ex (\<lambda>n. n \<noteq> 0) (map snd counts) then Inr None
        else bind_err (py_max (map_of counts) (map fst counts)) (\<lambda>m. Inr (Some m))))"

subsection \<open>The calls that change the state\<close>

text \<open>
  The constructors, \<open>add_article\<close> and the assignments to the data attributes are the
  only code of the three classes that writes. A run of the module is a sequence of
  such calls from the initial state; a call that raises leaves the state it raised in.
\<close>

datatype attr = Attr_author | Attr_magazine | Attr_title | Attr_name | Attr_category

fun attr_name :: "attr \<Rightarrow> string" where
  "attr_name Attr_author = ''author''"
| "attr_name Attr_magazine = ''magazine''"
| "attr_name Attr_title = ''title''"
| "attr_name Attr_name = ''name''"
| "attr_name Attr_category = ''category''"

datatype operation =
    New_Author pyval
  | New_Magazine pyval pyval
  | New_Article pyval pyval pyval
  | Add_Article pyval pyval pyval
  | Assign ref attr pyval

fun step :: "state \<Rightarrow> operation \<Rightarrow> state" where
  "step s (New_Author n) = snd (Author_init s n)"
| "step s (New_Magazine n c) = snd (Magazine_init s n c)"
| "step s (New_Article a m t) = snd (Article_init s a m t)"
| "step s (Add_Article self m t) = snd (Author_add_article s self m t)"
| "step s (Assign r a v) = snd (assign_attr s r (attr_name a) v)"

text \<open>The calls that assign \<open>article.author\<close>.\<close>

fun writes_author :: "operation \<Rightarrow> bool" where
  "writes_author (Assign r Attr_author v) = True"
| "writes_author op = False"

definition run :: "operation list \<Rightarrow> state" where
  "run ops = foldl step init_state ops"

subsection \<open>Terms of the specification\<close>

text \<open>The spec's condition on a title: a string of 5 to 50 characters.\<close>

definition valid_title :: "pyval \<Rightarrow> bool" where
  "valid_title v = (case v of PStr t \<Rightarrow> 5 \<le> length t \<and> length t \<le> 50 | _ \<Rightarrow> False)"

text \<open>The spec's conditions on a magazine's name and category.\<close>

definition valid_name :: "pyval \<Rightarrow> bool" where
  "valid_name v = (case v of PStr t \<Rightarrow> 2 \<le> length t \<and> length t \<le> 16 | _ \<Rightarrow> False)"

definition valid_category :: "pyval \<Rightarrow> bool" where
  "valid_category v = (case v of PStr t \<Rightarrow> t \<noteq> [] | _ \<Rightarrow> False)"

text \<open>Every reference held by a registry points into the heap.\<close>

definition registry_allocated :: "state \<Rightarrow> bool" where
  "registry_allocated s =
     ((\<forall>a \<in> set (all_articles s). a < length (heap s))
      \<and> (\<forall>m \<in> set (all_magazines s). m < length (heap s)))"

text \<open>
  The registry of articles is well formed when it lists each article once and each
  listed article has its \<open>author\<close> and \<open>magazine\<close> attributes, as every article that
  \<open>Article.__init__\<close> appended has.
\<close>

definition articles_ok :: "state \<Rightarrow> bool" where
  "articles_ok s =
     (distinct (all_articles s)
      \<and> (\<forall>a \<in> set (all_articles s).
            \<not> isl (getattr s (PRef a) ''author'')
            \<and> \<not> isl (getattr s (PRef a) ''magazine'')))"

text \<open>The author and the magazine of an article in a well-formed registry.\<close>

definition author_of :: "state \<Rightarrow> ref \<Rightarrow> pyval" where
  "author_of s a = (case getattr s (PRef a) ''author'' of Inr v \<Rightarrow> v | Inl e \<Rightarrow> PNone)"

definition magazine_of :: "state \<Rightarrow> ref \<Rightarrow> pyval" where
  "magazine_of s a = (case getattr s (PRef a) ''magazine'' of Inr v \<Rightarrow> v | Inl e \<Rightarrow> PNone)"

text \<open>
  The registry of magazines is well formed when it lists each magazine once and every
  entry is a \<open>Magazine\<close> instance.
\<close>

definition magazines_ok :: "state \<Rightarrow> bool" where
  "magazines_ok s =
     (distinct (all_magazines s)
      \<and> (\<forall>m \<in> set (all_magazines s). isinstance s (PRef m) Magazine))"

text \<open>
  The data model's typing, as far as one magazine or one author is concerned: the
  articles of magazine \<open>m\<close> all have an \<open>Author\<close> instance as author; the articles of
  author \<open>au\<close> all have a magazine whose \<open>category\<close> can be read, as that of every
  constructed \<open>Magazine\<close> can. \<open>Article.__init__\<close> checks the classes, but a later
  assignment to \<open>article.author\<close> or \<open>article.magazine\<close> does not.
\<close>

definition contributors_are_authors :: "state \<Rightarrow> pyval \<Rightarrow> bool" where
  "contributors_are_authors s m =
     (\<forall>a \<in> set (all_articles s). magazine_of s a = m \<longrightarrow> isinstance s (author_of s a) Author)"

definition magazines_have_category :: "state \<Rightarrow> pyval \<Rightarrow> bool" where
  "magazines_have_category s au =
     (\<forall>a \<in> set (all_articles s).
        author_of s a = au \<longrightarrow> \<not> isl (getattr s (magazine_of s a) ''category''))"

text \<open>The number of registered articles whose magazine is \<open>m\<close>.\<close>

definition article_count :: "state \<Rightarrow> ref \<Rightarrow> nat" where
  "article_count s m = length (filter (\<lambda>a. magazine_of s a = PRef m) (all_articles s))"

text \<open>The number of registered articles that author \<open>au\<close> has written for magazine \<open>m\<close>.\<close>

definition written_for :: "state \<Rightarrow> pyval \<Rightarrow> pyval \<Rightarrow> nat" where
  "written_for s au m =
     length (filter (\<lambda>a. author_of s a = au \<and> magazine_of s a = m) (all_articles s))"

text \<open>The category of a magazine whose category is set.\<close>

definition category_of :: "state \<Rightarrow> pyval \<Rightarrow> pyval" where
  "category_of s m = (case getattr s m ''category'' of Inr v \<Rightarrow> v | Inl e \<Rightarrow> PNone)"

subsection \<open>Concrete states\<close>

text \<open>
  The state after \<open>Author("Alice")\<close> and \<open>Magazine("Tech Today", "Technology")\<close>:
  the author at address 0, the magazine at address 1.
\<close>

definition demo_state :: state where
  "demo_state =
     \<lparr>heap = [\<lparr>cls_of = Author, attrs = [(''name'', PStr ''Alice'')]\<rparr>,
              \<lparr>cls_of = Magazine,
               attrs = [(''_name'', PStr ''Tech Today''), (''_category'', PStr ''Technology'')]\<rparr>],
      all_articles = [],
      all_magazines = [1]\<rparr>"

text \<open>
  The scenario of the module's own test: magazines "Tech Today" (address 0) and
  "Health Matters" (address 1), authors Alice (2) and Bob (3), and the articles
  (Alice, Tech Today), (Bob, Tech Today), (Alice, Health Matters) at addresses 4 to 6.
\<close>

definition scenario_state :: state where
  "scenario_state =
     \<lparr>heap = [\<lparr>cls_of = Magazine,
               attrs = [(''_name'', PStr ''Tech Today''), (''_category'', PStr ''Technology'')]\<rparr>,
              \<lparr>cls_of = Magazine,
               attrs = [(''_name'', PStr ''Health Matters''), (''_category'', PStr ''Health'')]\<rparr>,
              \<lparr>cls_of = Author, attrs = [(''name'', PStr ''Alice'')]\<rparr>,
              \<lparr>cls_of = Author, attrs = [(''name'', PStr ''Bob'')]\<rparr>,
              \<lparr>cls_of = Article,
               attrs = [(''author'', PRef 2), (''magazine'', PRef 0),
                        (''title'', PStr ''Latest Tech Trends'')]\<rparr>,
              \<lparr>cls_of = Article,
               attrs = [(''author'', PRef 3), (''magazine'', PRef 0),
                        (''title'', PStr ''AI in Healthcare'')]\<rparr>,
              \<lparr>cls_of = Article,
               attrs = [(''author'', PRef 2), (''magazine'', PRef 1),
                        (''title'', PStr ''Dietary Tips for 2024'')]\<rparr>],
      all_articles = [4, 5, 6],
      all_magazines = [0, 1]\<rparr>"

text \<open>
  A state in which the only article has left its magazine: from \<open>demo_state\<close>, Alice
  publishes in "Tech Today" (the article gets address 2) and the article's \<open>magazine\<close>
  is then assigned the author at address 0.
\<close>

definition stray_state :: state where
  "stray_state =
     snd (assign_attr
            (snd (Article_init demo_state (PRef 0) (PRef 1) (PStr ''Latest Tech Trends'')))
            2 ''magazine'' (PRef 0))"

text \<open>The calls that build the scenario from the initial state.\<close>

definition scenario_ops :: "operation list" where
  "scenario_ops =
     [New_Magazine (PStr ''Tech Today'') (PStr ''Technology''),
      New_Magazine (PStr ''Health Matters'') (PStr ''Health''),
      New_Author (PStr ''Alice''), New_Author (PStr ''Bob''),
      New_Article (PRef 2) (PRef 0) (PStr ''Latest Tech Trends''),
      New_Article (PRef 3) (PRef 0) (PStr ''AI in Healthcare''),
      New_Article (PRef 2) (PRef 1) (PStr ''Dietary Tips for 2024'')]"

text \<open>
  The scenario continued with a third magazine "Vogue" (address 7) and five articles
  (addresses 8 to 12), after which "Tech Today" has 2 articles and "Health Matters"
  and "Vogue" have 3 each.
\<close>

definition late_state :: state where
  "late_state =
     foldl step scenario_state
       [New_Magazine (PStr ''Vogue'') (PStr ''Fashion''),
        New_Article (PRef 2) (PRef 1) (PStr ''Sleep well''),
        New_Article (PRef 2) (PRef 7) (PStr ''Linen in summer''),
        New_Article (PRef 3) (PRef 7) (PStr ''Wool in winter''),
        New_Article (PRef 3) (PRef 1) (PStr ''Walk more''),
        New_Article (PRef 2) (PRef 7) (PStr ''Silk at night'')]"

text \<open>
  The scenario after two more articles by Alice in "Tech Today" (addresses 7 and 8),
  a new magazine "Vogue" (address 9) without articles and a new author Carol
  (address 10) without articles.
\<close>

definition busy_state :: state where
  "busy_state =
     foldl step scenario_state
       [New_Article (PRef 2) (PRef 0) (PStr ''Quantum chips''),
        Add_Article (PRef 2) (PRef 0) (PStr ''Edge computing''),
        New_Magazine (PStr ''Vogue'') (PStr ''Fashion''),
        New_Author (PStr ''Carol'')]"

section \<open>Properties\<close>

subsection \<open>The heap\<close>

lemma valid_title_iff:
  "valid_title title \<longleftrightarrow> (isinstance_str title \<and> 5 \<le> py_len title \<and> py_len title \<le> 50)"
  by (cases title) (auto simp: valid_title_def)

lemma isinstance_new_object:
  "isinstance s v c \<Longrightarrow> isinstance (snd (new_object k s)) v c"
  by (auto simp: isinstance_def heap_at_def new_object_def nth_append split: pyval.splits)

lemma isinstance_new_object_iff:
  "c \<noteq> k \<Longrightarrow> isinstance (snd (new_object k s)) v c = isinstance s v c"
  by (auto simp: isinstance_def heap_at_def new_object_def nth_append split: pyval.splits)

lemma heap_at_new_object:
  "heap_at (snd (new_object c s)) r =
     (if r < length (heap s) then heap_at s r
      else if r = length (heap s) then Some \<lparr>cls_of = c, attrs = []\<rparr> else None)"
  by (simp add: heap_at_def new_object_def nth_append)

lemma heap_at_store_attr:
  "heap_at (store_attr r a v s) r' =
     (if r' = r then map_option (\<lambda>ob. ob\<lparr>attrs := AList.update a v (attrs ob)\<rparr>) (heap_at s r)
      else heap_at s r')"
  by (simp add: heap_at_def store_attr_def)

lemma isinstance_store_attr [simp]:
  "isinstance (store_attr r a v s) x c = isinstance s x c"
  by (cases x) (auto simp: isinstance_def heap_at_store_attr split: option.splits)

lemma registries_store_attr [simp]:
  "all_articles (store_attr r a v s) = all_articles s"
  "all_magazines (store_attr r a v s) = all_magazines s"
  "length (heap (store_attr r a v s)) = length (heap s)"
  by (simp_all add: store_attr_def)

lemma registries_new_object [simp]:
  "all_articles (snd (new_object c s)) = all_articles s"
  "all_magazines (snd (new_object c s)) = all_magazines s"
  "length (heap (snd (new_object c s))) = Suc (length (heap s))"
  "fst (new_object c s) = length (heap s)"
  by (simp_all add: new_object_def)

lemma heap_at_registries_upd [simp]:
  "heap_at (s\<lparr>all_articles := xs\<rparr>) r = heap_at s r"
  "heap_at (s\<lparr>all_magazines := ys\<rparr>) r = heap_at s r"
  by (simp_all add: heap_at_def)

lemma isinstance_registries_upd [simp]:
  "isinstance (s\<lparr>all_articles := xs\<rparr>) v c = isinstance s v c"
  "isinstance (s\<lparr>all_magazines := ys\<rparr>) v c = isinstance s v c"
  by (simp_all add: isinstance_def cong: pyval.case_cong)

lemma Article_init_fails:
  "\<not> (isinstance s author Author \<and> isinstance s magazine Magazine \<and> valid_title title) \<Longrightarrow>
     Article_init s author magazine title = (Inl ValueError, snd (new_object Article s))"
  by (auto simp: Article_init_def valid_title_iff isinstance_new_object_iff case_prod_beta)

lemma Article_init_succeeds:
  "isinstance s author Author \<Longrightarrow> isinstance s magazine Magazine \<Longrightarrow> valid_title title \<Longrightarrow>
     Article_init s author magazine title =
       (Inr (length (heap s)),
        (store_attr (length (heap s)) ''title'' title
          (store_attr (length (heap s)) ''magazine'' magazine
            (store_attr (length (heap s)) ''author'' author (snd (new_object Article s)))))
        \<lparr>all_articles := all_articles s @ [length (heap s)]\<rparr>)"
  by (simp add: Article_init_def valid_title_iff isinstance_new_object_iff Let_def case_prod_beta)

lemma isinstance_Article_init:
  "isinstance s v c \<Longrightarrow> isinstance (snd (Article_init s author magazine title)) v c"
  by (cases "isinstance s author Author \<and> isinstance s magazine Magazine \<and> valid_title title")
     (auto simp: Article_init_fails Article_init_succeeds isinstance_new_object)

lemma heap_length_Article_init:
  "length (heap (snd (Article_init s author magazine title))) = Suc (length (heap s))"
  by (cases "isinstance s author Author \<and> isinstance s magazine Magazine \<and> valid_title title")
     (auto simp: Article_init_fails Article_init_succeeds)

lemma demo_facts:
  "isinstance demo_state (PRef 0) Author" "isinstance demo_state (PRef 1) Magazine"
  "valid_title (PStr ''Latest Tech Trends'')" "\<not> valid_title (PStr ''Test'')"
  "registry_allocated demo_state"
  by (simp_all add: isinstance_def heap_at_def demo_state_def valid_title_def registry_allocated_def)

subsection \<open>Comprehensions and attribute reads\<close>

lemma bind_err_simps [simp]:
  "bind_err (Inl e) f = Inl e"
  "bind_err (Inr x) f = f x"
  by (simp_all add: bind_err_def)

lemma filter_err_total:
  "\<forall>x \<in> set xs. p x = Inr (q x) \<Longrightarrow> filter_err p xs = Inr (filter q xs)"
  by (induction xs) auto

lemma map_err_total:
  "\<forall>x \<in> set xs. f x = Inr (g x) \<Longrightarrow> map_err f xs = Inr (map g xs)"
  by (induction xs) auto

lemma getattr_registries_upd [simp]:
  "getattr (s\<lparr>all_articles := xs\<rparr>) v a = getattr s v a"
  "getattr (s\<lparr>all_magazines := ys\<rparr>) v a = getattr s v a"
  by (simp_all add: getattr_def cong: pyval.case_cong)

lemma getattr_new_object:
  "r < length (heap s) \<Longrightarrow> getattr (snd (new_object c s)) (PRef r) a = getattr s (PRef r) a"
  by (simp add: getattr_def heap_at_new_object)

lemma getattr_store_attr_other:
  "r \<noteq> r' \<Longrightarrow> getattr (store_attr r' a' v s) (PRef r) a = getattr s (PRef r) a"
  by (simp add: getattr_def heap_at_store_attr)

lemma getattr_allocated:
  "getattr s (PRef r) a = Inr v \<Longrightarrow> r < length (heap s)"
  by (auto simp: getattr_def heap_at_def split: if_splits)

lemma getattr_author:
  "articles_ok s \<Longrightarrow> a \<in> set (all_articles s) \<Longrightarrow>
     getattr s (PRef a) ''author'' = Inr (author_of s a)"
  by (auto simp: articles_ok_def author_of_def split: sum.splits)

lemma getattr_magazine:
  "articles_ok s \<Longrightarrow> a \<in> set (all_articles s) \<Longrightarrow>
     getattr s (PRef a) ''magazine'' = Inr (magazine_of s a)"
  by (auto simp: articles_ok_def magazine_of_def split: sum.splits)

lemma articles_ok_allocated:
  "articles_ok s \<Longrightarrow> a \<in> set (all_articles s) \<Longrightarrow> a < length (heap s)"
  using getattr_author getattr_allocated by blast

lemma Author_articles_filter:
  "articles_ok s \<Longrightarrow>
     Author_articles s self = Inr (filter (\<lambda>a. author_of s a = self) (all_articles s))"
  unfolding Author_articles_def
  by (rule filter_err_total) (simp add: getattr_author)

lemma Magazine_articles_filter:
  "articles_ok s \<Longrightarrow>
     Magazine_articles s self = Inr (filter (\<lambda>a. magazine_of s a = self) (all_articles s))"
  unfolding Magazine_articles_def
  by (rule filter_err_total) (simp add: getattr_magazine)

text \<open>What a successful creation does to the attributes of the articles.\<close>

lemma attr_key_other: "c \<noteq> Magazine \<Longrightarrow> attr_key c a = a"
  by (cases c) simp_all

lemma getattr_store_attr_same:
  "heap_at s r = Some ob \<Longrightarrow> cls_of ob \<noteq> Magazine \<Longrightarrow>
     getattr (store_attr r a' v s) (PRef r) a = (if a = a' then Inr v else getattr s (PRef r) a)"
  by (simp add: getattr_def heap_at_store_attr update_conv' attr_key_other)

lemma Article_init_getattr_old:
  "r < length (heap s) \<Longrightarrow>
     getattr (snd (Article_init s author magazine title)) (PRef r) a = getattr s (PRef r) a"
  by (cases "isinstance s author Author \<and> isinstance s magazine Magazine \<and> valid_title title")
     (simp_all add: Article_init_fails Article_init_succeeds getattr_new_object getattr_store_attr_other)

lemma Article_init_getattr_new:
  assumes "Article_init s author magazine title = (Inr r, s')"
  shows "r = length (heap s)"
    and "getattr s' (PRef r) ''author'' = Inr author"
    and "getattr s' (PRef r) ''magazine'' = Inr magazine"
    and "getattr s' (PRef r) ''title'' = Inr title"
    and "all_articles s' = all_articles s @ [r]"
    and "all_magazines s' = all_magazines s"
proof -
  have ok: "isinstance s author Author \<and> isinstance s magazine Magazine \<and> valid_title title"
    using assms by (rule contrapos_pp) (simp add: Article_init_fails)
  from ok assms have s': "s' = (store_attr (length (heap s)) ''title'' title
          (store_attr (length (heap s)) ''magazine'' magazine
            (store_attr (length (heap s)) ''author'' author (snd (new_object Article s)))))
        \<lparr>all_articles := all_articles s @ [length (heap s)]\<rparr>" and r: "r = length (heap s)"
    by (auto simp: Article_init_succeeds)
  show "r = length (heap s)" by fact
  show "getattr s' (PRef r) ''author'' = Inr author"
    "getattr s' (PRef r) ''magazine'' = Inr magazine"
    "getattr s' (PRef r) ''title'' = Inr title"
    unfolding s' r by (simp_all add: getattr_def heap_at_store_attr heap_at_new_object)
  show "all_articles s' = all_articles s @ [r]" "all_magazines s' = all_magazines s"
    unfolding s' r by simp_all
qed


lemma articles_ok_init: "articles_ok init_state"
  by (simp add: articles_ok_def init_state_def)

lemma author_of_Article_init_old:
  "r < length (heap s) \<Longrightarrow> author_of (snd (Article_init s author magazine title)) r = author_of s r"
  by (simp add: author_of_def Article_init_getattr_old)

lemma magazine_of_Article_init_old:
  "r < length (heap s) \<Longrightarrow> magazine_of (snd (Article_init s author magazine title)) r = magazine_of s r"
  by (simp add: magazine_of_def Article_init_getattr_old)

lemma articles_ok_Article_init:
  assumes "articles_ok s"
  shows "articles_ok (snd (Article_init s author magazine title))"
proof (cases "fst (Article_init s author magazine title)")
  case (Inl e)
  then have ok: "\<not> (isinstance s author Author \<and> isinstance s magazine Magazine \<and> valid_title title)"
    by (rule contrapos_pp) (simp add: Article_init_succeeds)
  have "all_articles (snd (Article_init s author magazine title)) = all_articles s"
    using ok by (simp add: Article_init_fails)
  then show ?thesis
    using assms articles_ok_allocated [OF assms]
    by (simp add: articles_ok_def Article_init_getattr_old)
next
  case (Inr r)
  then have eq: "Article_init s author magazine title = (Inr r, snd (Article_init s author magazine title))"
    by (metis prod.collapse)
  note new = Article_init_getattr_new [OF eq]
  show ?thesis
    using assms articles_ok_allocated [OF assms] new
    by (auto simp: articles_ok_def Article_init_getattr_old)
qed

lemma Author_articles_Article_init:
  assumes ok: "articles_ok s" and init: "Article_init s author magazine title = (Inr r, s')"
  shows "Author_articles s' self =
           Inr (filter (\<lambda>a. author_of s a = self) (all_articles s) @ (if author = self then [r] else []))"
proof -
  have s': "s' = snd (Article_init s author magazine title)"
    using init by simp
  have ok': "articles_ok s'"
    unfolding s' by (rule articles_ok_Article_init [OF ok])
  note new = Article_init_getattr_new [OF init]
  have old: "filter (\<lambda>a. author_of s' a = self) (all_articles s)
               = filter (\<lambda>a. author_of s a = self) (all_articles s)"
    by (rule filter_cong) (simp_all add: s' author_of_Article_init_old articles_ok_allocated [OF ok])
  have "author_of s' r = author"
    using new(2) by (simp add: author_of_def)
  then show ?thesis
    by (simp add: Author_articles_filter [OF ok'] new(5) old)
qed

subsection \<open>The constructors and setters, case by case\<close>

lemma valid_name_iff:
  "valid_name v \<longleftrightarrow> (isinstance_str v \<and> 2 \<le> py_len v \<and> py_len v \<le> 16)"
  by (cases v) (auto simp: valid_name_def)

lemma valid_category_iff:
  "valid_category v \<longleftrightarrow> (isinstance_str v \<and> py_len v \<noteq> 0)"
  by (cases v) (auto simp: valid_category_def)

lemma Magazine_name_setter_cases:
  "Magazine_name_setter s self v =
     (if valid_name v then (Inr (), store_attr self ''_name'' v s) else (Inl ValueError, s))"
  by (auto simp: Magazine_name_setter_def valid_name_iff)

lemma Magazine_category_setter_cases:
  "Magazine_category_setter s self v =
     (if valid_category v then (Inr (), store_attr self ''_category'' v s) else (Inl ValueError, s))"
  by (auto simp: Magazine_category_setter_def valid_category_iff)

lemma Magazine_init_cases:
  "Magazine_init s name category =
     (if \<not> valid_name name then (Inl ValueError, snd (new_object Magazine s))
      else if \<not> valid_category category
        then (Inl ValueError, store_attr (length (heap s)) ''_name'' name (snd (new_object Magazine s)))
      else (Inr (length (heap s)),
            (store_attr (length (heap s)) ''_category'' category
              (store_attr (length (heap s)) ''_name'' name (snd (new_object Magazine s))))
            \<lparr>all_magazines := all_magazines s @ [length (heap s)]\<rparr>))"
  by (simp add: Magazine_init_def Magazine_name_setter_cases Magazine_category_setter_cases
      case_prod_beta)

lemma heap_new_object: "heap (snd (new_object c s)) = heap s @ [\<lparr>cls_of = c, attrs = []\<rparr>]"
  by (simp add: new_object_def)

lemma take_heap_store_attr:
  "n \<le> r \<Longrightarrow> take n (heap (store_attr r a v s)) = take n (heap s)"
  by (simp add: store_attr_def)

lemma Article_init_cases:
  "Article_init s author magazine title =
     (if isinstance s author Author \<and> isinstance s magazine Magazine \<and> valid_title title
      then (Inr (length (heap s)),
        (store_attr (length (heap s)) ''title'' title
          (store_attr (length (heap s)) ''magazine'' magazine
            (store_attr (length (heap s)) ''author'' author (snd (new_object Article s)))))
        \<lparr>all_articles := all_articles s @ [length (heap s)]\<rparr>)
      else (Inl ValueError, snd (new_object Article s)))"
  by (simp add: Article_init_fails Article_init_succeeds)

subsection \<open>The dictionary of counts and its maximum\<close>

lemma update_fresh_key:
  "k \<notin> fst ` set d \<Longrightarrow> AList.update k v d = d @ [(k, v)]"
  by (induction d) auto

lemma dict_comp_distinct:
  "distinct ks \<Longrightarrow> set ks \<inter> fst ` set d = {} \<Longrightarrow> \<forall>k \<in> set ks. f k = Inr (g k) \<Longrightarrow>
     dict_comp f ks d = Inr (d @ map (\<lambda>k. (k, g k)) ks)"
proof (induction ks arbitrary: d)
  case Nil
  then show ?case by simp
next
  case (Cons k ks)
  have upd: "AList.update k (g k) d = d @ [(k, g k)]"
    using Cons.prems(2) by (intro update_fresh_key) auto
  have "dict_comp f ks (d @ [(k, g k)]) = Inr ((d @ [(k, g k)]) @ map (\<lambda>k. (k, g k)) ks)"
    using Cons.prems by (intro Cons.IH) auto
  then show ?case
    using Cons.prems(3) by (simp add: upd)
qed

lemma max_from_split:
  "\<exists>ys zs. b # xs = ys @ max_from key b xs # zs
      \<and> (\<forall>y \<in> set ys. key y < key (max_from key b xs))
      \<and> (\<forall>z \<in> set zs. key z \<le> key (max_from key b xs))"
proof (induction xs arbitrary: b)
  case Nil
  have "[b] = [] @ b # [] \<and> (\<forall>y \<in> set []. key y < key b) \<and> (\<forall>z \<in> set []. key z \<le> key b)"
    by simp
  then show ?case
    unfolding max_from.simps by blast
next
  case (Cons x xs)
  show ?case
  proof (cases "key b < key x")
    case True
    let ?r = "max_from key x xs"
    have r: "max_from key b (x # xs) = ?r"
      using True by simp
    from Cons.IH [of x] obtain ys zs where split: "x # xs = ys @ ?r # zs"
      and lt: "\<forall>y \<in> set ys. key y < key ?r" and le: "\<forall>z \<in> set zs. key z \<le> key ?r"
      by blast
    have "key x \<le> key ?r"
    proof (cases ys)
      case Nil
      with split have "?r = x" by (metis append_Nil list.inject)
      then show ?thesis by simp
    next
      case (Cons y ys')
      with split have "y = x" by simp
      with lt Cons have "key x < key ?r" by simp
      then show ?thesis by (rule less_imp_le)
    qed
    with True have "key b < key ?r" by (rule less_le_trans)
    with lt have lt': "\<forall>y \<in> set (b # ys). key y < key ?r" by simp
    have split': "b # x # xs = (b # ys) @ ?r # zs"
      using split by simp
    show ?thesis
      unfolding r using split' lt' le by blast
  next
    case False
    let ?r = "max_from key b xs"
    have r: "max_from key b (x # xs) = ?r"
      using False by simp
    from Cons.IH [of b] obtain ys zs where split: "b # xs = ys @ ?r # zs"
      and lt: "\<forall>y \<in> set ys. key y < key ?r" and le: "\<forall>z \<in> set zs. key z \<le> key ?r"
      by blast
    show ?thesis
    proof (cases ys)
      case Nil
      with split have b: "?r = b" and zs: "zs = xs" by (metis append_Nil list.inject)+
      have le': "\<forall>z \<in> set (x # xs). key z \<le> key ?r"
        using b zs le False by (auto simp: not_less)
      have split': "b # x # xs = [] @ ?r # (x # xs)"
        using b by simp
      have lt': "\<forall>y \<in> set []. key y < key ?r"
        by simp
      show ?thesis
        unfolding r using split' lt' le' by blast
    next
      case (Cons y ys')
      with split have y: "y = b" and xs: "xs = ys' @ ?r # zs" by (metis append_Cons list.inject)+
      have "key b < key ?r" using lt Cons y by simp
      with False have "key x < key ?r" by (simp add: not_less le_less_trans)
      with lt Cons y have lt': "\<forall>y \<in> set (b # x # ys'). key y < key ?r"
        by simp
      have split': "b # x # xs = (b # x # ys') @ ?r # zs"
        using xs by simp
      show ?thesis
        unfolding r using split' lt' le by blast
    qed
  qed
qed

lemma max_from_cong:
  "(\<And>x y. x \<in> set (b # xs) \<Longrightarrow> y \<in> set (b # xs) \<Longrightarrow> (key x < key y) = (key' x < key' y)) \<Longrightarrow>
     max_from key b xs = max_from key' b xs"
proof (induction xs arbitrary: b)
  case Nil
  show ?case by simp
next
  case (Cons x xs)
  have "(key b < key x) = (key' b < key' x)"
    by (rule Cons.prems) simp_all
  moreover have "max_from key x xs = max_from key' x xs"
    by (rule Cons.IH) (simp add: Cons.prems)
  moreover have "max_from key b xs = max_from key' b xs"
    by (rule Cons.IH) (rule Cons.prems, auto)
  ultimately show ?case by simp
qed


lemma map_of_graph:
  "m \<in> set ms \<Longrightarrow> map_of (map (\<lambda>k. (k, g k)) ms) m = Some (g m)"
  by (induction ms) auto

lemma call_articles_magazine:
  "articles_ok s \<Longrightarrow> isinstance s (PRef m) Magazine \<Longrightarrow>
     call_articles s (PRef m) = Inr (filter (\<lambda>a. magazine_of s a = PRef m) (all_articles s))"
  by (auto simp: call_articles_def Magazine_articles_filter isinstance_def split: option.splits)

lemma magazine_article_counts_eq:
  assumes "articles_ok s" and "magazines_ok s"
  shows "magazine_article_counts s = Inr (map (\<lambda>m. (m, article_count s m)) (all_magazines s))"
proof -
  have "dict_comp (\<lambda>magazine. bind_err (call_articles s (PRef magazine)) (\<lambda>arts. Inr (length arts)))
          (all_magazines s) []
        = Inr ([] @ map (\<lambda>m. (m, article_count s m)) (all_magazines s))"
    using assms
    by (intro dict_comp_distinct)
       (auto simp: magazines_ok_def call_articles_magazine article_count_def)
  then show ?thesis
    by (simp add: magazine_article_counts_def)
qed

lemma top_publisher_char:
  assumes "articles_ok s" and "magazines_ok s"
  shows "Magazine_top_publisher s =
           Inr (if all_articles s = [] \<or> (\<forall>m \<in> set (all_magazines s). article_count s m = 0) then None
                else Some (max_from (article_count s) (hd (all_magazines s)) (tl (all_magazines s))))"
proof (cases "all_articles s = [] \<or> (\<forall>m \<in> set (all_magazines s). article_count s m = 0)")
  case True
  then show ?thesis
    by (auto simp: Magazine_top_publisher_def get_all_articles_def
        magazine_article_counts_eq [OF assms] list_ex_iff)
next
  case False
  then obtain b xs where ms: "all_magazines s = b # xs"
    by (cases "all_magazines s") auto
  let ?counts = "map (\<lambda>m. (m, article_count s m)) (all_magazines s)"
  have fst: "map fst ?counts = b # xs"
    by (simp add: ms comp_def)
  have key: "max_from (map_of ?counts) b xs = max_from (article_count s) b xs"
  proof (rule max_from_cong)
    fix x y
    assume "x \<in> set (b # xs)" and "y \<in> set (b # xs)"
    then have "map_of ?counts x = Some (article_count s x)" "map_of ?counts y = Some (article_count s y)"
      unfolding ms [symmetric] by (simp_all add: map_of_graph)
    then show "(map_of ?counts x < map_of ?counts y) = (article_count s x < article_count s y)"
      by simp
  qed
  have ex: "list_ex (\<lambda>n. n \<noteq> 0) (map snd ?counts)"
    using False by (auto simp: list_ex_iff)
  have pm: "py_max (map_of ?counts) (map fst ?counts) = Inr (max_from (article_count s) b xs)"
    by (simp only: fst py_max_def list.case key)
  have "Magazine_top_publisher s = Inr (Some (max_from (article_count s) b xs))"
    unfolding Magazine_top_publisher_def get_all_articles_def magazine_article_counts_eq [OF assms]
      bind_err_simps pm
    using False ex by simp
  with False show ?thesis
    by (simp add: ms)
qed

lemma first_max_split:
  assumes "ms \<noteq> []"
  shows "\<exists>before after. ms = before @ max_from key (hd ms) (tl ms) # after
      \<and> (\<forall>y \<in> set before. key y < key (max_from key (hd ms) (tl ms)))
      \<and> (\<forall>z \<in> set after. key z \<le> key (max_from key (hd ms) (tl ms)))"
  using max_from_split [of "hd ms" "tl ms" key] assms by simp

lemma Magazine_articles_length:
  "articles_ok s \<Longrightarrow>
     \<exists>arts. Magazine_articles s (PRef m) = Inr arts \<and> length arts = article_count s m"
  by (simp add: Magazine_articles_filter article_count_def)

subsection \<open>Every run keeps the registries well formed\<close>

lemma Author_init_cases:
  "Author_init s n =
     (if isinstance_str n \<and> py_len n \<noteq> 0
      then (Inr (length (heap s)), store_attr (length (heap s)) ''name'' n (snd (new_object Author s)))
      else (Inl ValueError, snd (new_object Author s)))"
  by (simp add: Author_init_def case_prod_beta)

lemma assign_attr_cases:
  "assign_attr s r a v =
     (if isinstance s (PRef r) Magazine \<and> a = ''name''
        then (if valid_name v then (Inr (), store_attr r ''_name'' v s) else (Inl ValueError, s))
      else if isinstance s (PRef r) Magazine \<and> a = ''category''
        then (if valid_category v then (Inr (), store_attr r ''_category'' v s) else (Inl ValueError, s))
      else (Inr (), store_attr r a v s))"
  by (simp add: assign_attr_def Magazine_name_setter_cases Magazine_category_setter_cases)

lemma Author_add_article_cases:
  "Author_add_article s self m t =
     (if isinstance s m Magazine \<and> isinstance_str t then Article_init s self m t
      else (Inl ValueError, s))"
  by (simp add: Author_add_article_def)

lemma readable_allocated:
  "\<not> isl (getattr s (PRef r) a) \<Longrightarrow> r < length (heap s)"
  by (rule ccontr) (simp add: getattr_def heap_at_def)

lemma readable_new_object:
  "\<not> isl (getattr s x a) \<Longrightarrow> \<not> isl (getattr (snd (new_object c s)) x a)"
proof (cases x)
  case (PRef r)
  assume "\<not> isl (getattr s x a)"
  with PRef show ?thesis
    by (simp add: getattr_new_object readable_allocated)
qed (simp_all add: getattr_def)

lemma isinstance_new_object_self:
  "isinstance (snd (new_object c s)) (PRef (length (heap s))) c"
  by (simp add: isinstance_def heap_at_new_object)

lemma readable_store_attr:
  "\<not> isl (getattr s x a) \<Longrightarrow> \<not> isl (getattr (store_attr r a' v s) x a)"
proof (cases x)
  case (PRef r')
  assume rd: "\<not> isl (getattr s x a)"
  show ?thesis
  proof (cases "r' = r")
    case False
    with rd PRef show ?thesis
      by (simp add: getattr_store_attr_other)
  next
    case True
    from rd PRef True obtain ob where ob: "heap_at s r = Some ob"
      by (cases "heap_at s r") (simp_all add: getattr_def)
    from rd PRef True ob show ?thesis
      by (simp add: getattr_def heap_at_store_attr update_conv' split: option.splits)
  qed
qed (simp_all add: getattr_def)

lemma step_isinstance:
  "isinstance s v c \<Longrightarrow> isinstance (step s op) v c"
  by (cases op)
     (simp_all add: Author_init_cases Magazine_init_cases Article_init_cases
        Author_add_article_cases assign_attr_cases isinstance_new_object)

lemma step_readable:
  "\<not> isl (getattr s x a) \<Longrightarrow> \<not> isl (getattr (step s op) x a)"
  by (cases op)
     (simp_all add: Author_init_cases Magazine_init_cases Article_init_cases
        Author_add_article_cases assign_attr_cases readable_new_object readable_store_attr)

lemma step_heap_length:
  "length (heap s) \<le> length (heap (step s op))"
  by (cases op)
     (simp_all add: Author_init_cases Magazine_init_cases Article_init_cases
        Author_add_article_cases assign_attr_cases)

lemma new_article_readable:
  "\<not> isl (getattr (store_attr (length (heap s)) ''title'' t
            (store_attr (length (heap s)) ''magazine'' m
              (store_attr (length (heap s)) ''author'' a (snd (new_object Article s)))))
          (PRef (length (heap s))) ''author'')"
  "\<not> isl (getattr (store_attr (length (heap s)) ''title'' t
            (store_attr (length (heap s)) ''magazine'' m
              (store_attr (length (heap s)) ''author'' a (snd (new_object Article s)))))
          (PRef (length (heap s))) ''magazine'')"
  by (simp_all add: getattr_def heap_at_store_attr heap_at_new_object)

lemma step_all_articles:
  "all_articles (step s op) = all_articles s
   \<or> all_articles (step s op) = all_articles s @ [length (heap s)]
      \<and> \<not> isl (getattr (step s op) (PRef (length (heap s))) ''author'')
      \<and> \<not> isl (getattr (step s op) (PRef (length (heap s))) ''magazine'')"
  by (cases op)
     (simp_all add: Author_init_cases Magazine_init_cases Article_init_cases
        Author_add_article_cases assign_attr_cases new_article_readable)

lemma step_all_magazines:
  "all_magazines (step s op) = all_magazines s
   \<or> all_magazines (step s op) = all_magazines s @ [length (heap s)]
      \<and> isinstance (step s op) (PRef (length (heap s))) Magazine"
  by (cases op)
     (simp_all add: Author_init_cases Magazine_init_cases Article_init_cases
        Author_add_article_cases assign_attr_cases isinstance_new_object_self)

lemma isinstance_allocated:
  "isinstance s (PRef r) c \<Longrightarrow> r < length (heap s)"
  by (auto simp: isinstance_def heap_at_def split: if_splits)

lemma articles_ok_step:
  assumes "articles_ok s"
  shows "articles_ok (step s op)"
proof -
  have old: "\<forall>a \<in> set (all_articles s).
      \<not> isl (getattr (step s op) (PRef a) ''author'')
      \<and> \<not> isl (getattr (step s op) (PRef a) ''magazine'')"
    using assms by (simp add: articles_ok_def step_readable)
  have fresh: "length (heap s) \<notin> set (all_articles s)"
    using articles_ok_allocated [OF assms] by blast
  from step_all_articles [of s op] show ?thesis
    using assms old fresh by (auto simp: articles_ok_def)
qed

lemma magazines_ok_step:
  assumes "magazines_ok s"
  shows "magazines_ok (step s op)"
proof -
  have old: "\<forall>m \<in> set (all_magazines s). isinstance (step s op) (PRef m) Magazine"
    using assms by (simp add: magazines_ok_def step_isinstance)
  have fresh: "length (heap s) \<notin> set (all_magazines s)"
    using assms isinstance_allocated by (fastforce simp: magazines_ok_def)
  from step_all_magazines [of s op] show ?thesis
    using assms old fresh by (auto simp: magazines_ok_def)
qed

lemma foldl_step_ok:
  "articles_ok s \<Longrightarrow> magazines_ok s \<Longrightarrow>
     articles_ok (foldl step s ops) \<and> magazines_ok (foldl step s ops)"
  by (induction ops arbitrary: s) (simp_all add: articles_ok_step magazines_ok_step)

lemma run_ok: "articles_ok (run ops) \<and> magazines_ok (run ops)"
  unfolding run_def
  by (rule foldl_step_ok) (simp_all add: articles_ok_def magazines_ok_def init_state_def)

lemma foldl_step_all_magazines:
  "\<exists>ms. all_magazines (foldl step s ops) = all_magazines s @ ms"
proof (induction ops arbitrary: s)
  case Nil
  show ?case by simp
next
  case (Cons op ops)
  from step_all_magazines [of s op] obtain ms where "all_magazines (step s op) = all_magazines s @ ms"
    by auto
  moreover from Cons.IH [of "step s op"] obtain ms'
    where "all_magazines (foldl step (step s op) ops) = all_magazines (step s op) @ ms'"
    by blast
  ultimately show ?case by simp
qed

subsection \<open>Assignments to an article, and the derived sets\<close>

lemma attr_key_plain [simp]:
  "attr_key c ''author'' = ''author''" "attr_key c ''magazine'' = ''magazine''"
  by (cases c; simp)+

lemma getattr_store_attr_key:
  "heap_at s r = Some ob \<Longrightarrow>
     getattr (store_attr r k v s) (PRef r) n
       = (if attr_key (cls_of ob) n = k then Inr v else getattr s (PRef r) n)"
  by (simp add: getattr_def heap_at_store_attr update_conv')

lemma readable_heap_at:
  "\<not> isl (getattr s (PRef r) a) \<Longrightarrow> \<exists>ob. heap_at s r = Some ob"
  by (cases "heap_at s r") (simp_all add: getattr_def)

lemma assign_plain:
  "a \<noteq> ''name'' \<Longrightarrow> a \<noteq> ''category'' \<Longrightarrow> assign_attr s r a v = (Inr (), store_attr r a v s)"
  by (simp add: assign_attr_def)

lemma assign_magazine_effect:
  assumes ok: "articles_ok s" and a: "a \<in> set (all_articles s)"
  shows "magazine_of (snd (assign_attr s a ''magazine'' v)) x = (if x = a then v else magazine_of s x)"
    and "author_of (snd (assign_attr s a ''magazine'' v)) x = author_of s x"
proof -
  from ok a have "\<not> isl (getattr s (PRef a) ''magazine'')"
    by (simp add: articles_ok_def)
  then obtain ob where ob: "heap_at s a = Some ob"
    using readable_heap_at by blast
  show "magazine_of (snd (assign_attr s a ''magazine'' v)) x = (if x = a then v else magazine_of s x)"
    by (cases "x = a")
       (simp_all add: assign_plain magazine_of_def getattr_store_attr_key [OF ob]
          getattr_store_attr_other)
  show "author_of (snd (assign_attr s a ''magazine'' v)) x = author_of s x"
    by (cases "x = a")
       (simp_all add: assign_plain author_of_def getattr_store_attr_key [OF ob]
          getattr_store_attr_other)
qed

lemma assign_author_effect:
  assumes ok: "articles_ok s" and a: "a \<in> set (all_articles s)"
  shows "author_of (snd (assign_attr s a ''author'' v)) x = (if x = a then v else author_of s x)"
    and "magazine_of (snd (assign_attr s a ''author'' v)) x = magazine_of s x"
proof -
  from ok a have "\<not> isl (getattr s (PRef a) ''author'')"
    by (simp add: articles_ok_def)
  then obtain ob where ob: "heap_at s a = Some ob"
    using readable_heap_at by blast
  show "author_of (snd (assign_attr s a ''author'' v)) x = (if x = a then v else author_of s x)"
    by (cases "x = a")
       (simp_all add: assign_plain author_of_def getattr_store_attr_key [OF ob]
          getattr_store_attr_other)
  show "magazine_of (snd (assign_attr s a ''author'' v)) x = magazine_of s x"
    by (cases "x = a")
       (simp_all add: assign_plain magazine_of_def getattr_store_attr_key [OF ob]
          getattr_store_attr_other)
qed

lemma assign_registries:
  "all_articles (snd (assign_attr s r a v)) = all_articles s"
  "all_magazines (snd (assign_attr s r a v)) = all_magazines s"
  by (simp_all add: assign_attr_cases)

lemma articles_ok_assign: "articles_ok s \<Longrightarrow> articles_ok (snd (assign_attr s r a v))"
  using articles_ok_step [of s "Assign r Attr_author v"] articles_ok_step [of s "Assign r Attr_magazine v"]
  by (simp add: articles_ok_def assign_registries assign_attr_cases readable_store_attr)

lemma magazines_ok_assign: "magazines_ok s \<Longrightarrow> magazines_ok (snd (assign_attr s r a v))"
  by (simp add: magazines_ok_def assign_registries assign_attr_cases)

lemma Magazine_contributors_eq:
  assumes "articles_ok s"
  shows "Magazine_contributors s m =
           Inr (list_of_set (map (author_of s) (filter (\<lambda>a. magazine_of s a = m) (all_articles s))))"
proof -
  have "map_err (\<lambda>article. getattr s (PRef article) ''author'')
          (filter (\<lambda>a. magazine_of s a = m) (all_articles s))
        = Inr (map (author_of s) (filter (\<lambda>a. magazine_of s a = m) (all_articles s)))"
    by (rule map_err_total) (simp add: getattr_author [OF assms])
  then show ?thesis
    by (simp add: Magazine_contributors_def Magazine_articles_filter [OF assms])
qed

lemma filter_moved_absent:
  "a \<notin> set xs \<Longrightarrow>
     filter (\<lambda>x. (if x = a then m else f x) = m') xs = filter (\<lambda>x. f x = m') xs"
  by (rule filter_cong) auto

lemma count_after_move:
  assumes "distinct xs" and "a \<in> set xs"
  shows "f a \<noteq> m \<Longrightarrow>
           length (filter (\<lambda>x. (if x = a then m else f x) = m) xs)
             = Suc (length (filter (\<lambda>x. f x = m) xs))"
    and "f a = m' \<Longrightarrow> m \<noteq> m' \<Longrightarrow>
           Suc (length (filter (\<lambda>x. (if x = a then m else f x) = m') xs))
             = length (filter (\<lambda>x. f x = m') xs)"
proof -
  from assms(2) obtain ys zs where xs: "xs = ys @ a # zs"
    by (auto dest: split_list)
  with assms(1) have "a \<notin> set ys" "a \<notin> set zs"
    by auto
  then have rest: "\<And>k. filter (\<lambda>x. (if x = a then m else f x) = k) ys = filter (\<lambda>x. f x = k) ys"
    "\<And>k. filter (\<lambda>x. (if x = a then m else f x) = k) zs = filter (\<lambda>x. f x = k) zs"
    by (simp_all add: filter_moved_absent)
  show "f a \<noteq> m \<Longrightarrow>
           length (filter (\<lambda>x. (if x = a then m else f x) = m) xs)
             = Suc (length (filter (\<lambda>x. f x = m) xs))"
    by (simp add: xs rest)
  show "f a = m' \<Longrightarrow> m \<noteq> m' \<Longrightarrow>
           Suc (length (filter (\<lambda>x. (if x = a then m else f x) = m') xs))
             = length (filter (\<lambda>x. f x = m') xs)"
    by (simp add: xs rest)
qed

subsection \<open>A new magazine\<close>

lemma Magazine_init_success:
  assumes "Magazine_init s n c = (Inr r, s')"
  shows "r = length (heap s)" and "all_magazines s' = all_magazines s @ [r]"
    and "all_articles s' = all_articles s" and "s' = step s (New_Magazine n c)"
  using assms by (auto simp: Magazine_init_cases split: if_splits)

subsection \<open>The magazines of an author\<close>

lemma Author_magazines_eq:
  assumes "articles_ok s" and "isinstance s self Author"
  shows "Author_magazines s self =
           Inr (list_of_set (map (magazine_of s) (filter (\<lambda>a. author_of s a = self) (all_articles s))))"
proof -
  have "map_err (\<lambda>article. getattr s (PRef article) ''magazine'')
          (filter (\<lambda>a. author_of s a = self) (all_articles s))
        = Inr (map (magazine_of s) (filter (\<lambda>a. author_of s a = self) (all_articles s)))"
    by (rule map_err_total) (simp add: getattr_magazine [OF assms(1)])
  then show ?thesis
    using assms(2)
    by (simp add: Author_magazines_def call_articles_def Author_articles_filter [OF assms(1)])
qed

subsection \<open>Frequent contributors\<close>

lemma sum_ones: "sum_list (map (\<lambda>x. 1::int) xs) = int (length xs)"
  by (induction xs) simp_all

lemma contributor_is_author:
  assumes "contributors_are_authors s m"
    and "au \<in> set (list_of_set (map (author_of s) (filter (\<lambda>a. magazine_of s a = m) (all_articles s))))"
  shows "isinstance s au Author"
  using assms by (auto simp: list_of_set_def contributors_are_authors_def)

lemma call_articles_author:
  "articles_ok s \<Longrightarrow> isinstance s au Author \<Longrightarrow>
     call_articles s au = Inr (filter (\<lambda>a. author_of s a = au) (all_articles s))"
  by (simp add: call_articles_def Author_articles_filter)

lemma frequent_test:
  assumes ok: "articles_ok s" and au: "isinstance s au Author"
  shows "bind_err (call_articles s au) (\<lambda>arts.
           bind_err
             (filter_err
                (\<lambda>article. bind_err (getattr s (PRef article) ''magazine'') (\<lambda>v. Inr (v = m)))
                arts) (\<lambda>mine.
           Inr (sum_list (map (\<lambda>article. 1::int) mine) > 2)))
         = Inr (2 < written_for s au m)"
proof -
  let ?arts = "filter (\<lambda>a. author_of s a = au) (all_articles s)"
  have inner: "filter_err
      (\<lambda>article. bind_err (getattr s (PRef article) ''magazine'') (\<lambda>v. Inr (v = m))) ?arts
      = Inr (filter (\<lambda>a. magazine_of s a = m) ?arts)"
    by (rule filter_err_total) (simp add: getattr_magazine [OF ok])
  show ?thesis
    by (simp add: call_articles_author [OF ok au] inner sum_ones written_for_def)
qed

lemma Magazine_contributing_authors_eq:
  assumes ok: "articles_ok s" and recv: "isinstance s m Magazine"
    and typed: "contributors_are_authors s m"
  shows "Magazine_contributing_authors s m =
           Inr (let frequent_authors =
                      filter (\<lambda>au. 2 < written_for s au m)
                        (list_of_set (map (author_of s)
                           (filter (\<lambda>a. magazine_of s a = m) (all_articles s))))
                in if frequent_authors = [] then None else Some frequent_authors)"
proof -
  let ?cs = "list_of_set (map (author_of s) (filter (\<lambda>a. magazine_of s a = m) (all_articles s)))"
  have outer: "filter_err
      (\<lambda>author.
         bind_err (call_articles s author) (\<lambda>arts.
         bind_err
           (filter_err
              (\<lambda>article. bind_err (getattr s (PRef article) ''magazine'') (\<lambda>v. Inr (v = m)))
              arts) (\<lambda>mine.
         Inr (sum_list (map (\<lambda>article. 1::int) mine) > 2)))) ?cs
      = Inr (filter (\<lambda>au. 2 < written_for s au m) ?cs)"
    by (rule filter_err_total)
       (simp add: frequent_test [OF ok contributor_is_author [OF typed]])
  have call: "call_contributors s m = Inr ?cs"
    using recv by (simp add: call_contributors_def Magazine_contributors_eq [OF ok])
  show ?thesis
    unfolding Magazine_contributing_authors_def call bind_err_simps outer
    by (simp add: Let_def)
qed

lemma written_for_contributor:
  "0 < written_for s au m \<Longrightarrow>
     au \<in> set (list_of_set (map (author_of s) (filter (\<lambda>a. magazine_of s a = m) (all_articles s))))"
proof -
  assume "0 < written_for s au m"
  then have "filter (\<lambda>a. author_of s a = au \<and> magazine_of s a = m) (all_articles s) \<noteq> []"
    by (simp add: written_for_def)
  then obtain a where "a \<in> set (all_articles s)" "author_of s a = au" "magazine_of s a = m"
    by (auto simp: filter_empty_conv)
  then show ?thesis
    by (auto simp: list_of_set_def)
qed

subsection \<open>Categories\<close>

lemma getattr_category:
  "\<not> isl (getattr s m ''category'') \<Longrightarrow> getattr s m ''category'' = Inr (category_of s m)"
  by (cases "getattr s m ''category''") (simp_all add: category_of_def)

lemma Author_topic_areas_eq:
  assumes ok: "articles_ok s" and recv: "isinstance s self Author"
    and typed: "magazines_have_category s self"
  shows "Author_topic_areas s self =
           Inr (if filter (\<lambda>a. author_of s a = self) (all_articles s) = [] then None
                else Some (list_of_set (map (category_of s)
                       (list_of_set (map (magazine_of s)
                          (filter (\<lambda>a. author_of s a = self) (all_articles s)))))))"
proof -
  let ?arts = "filter (\<lambda>a. author_of s a = self) (all_articles s)"
  let ?ms = "list_of_set (map (magazine_of s) ?arts)"
  have "\<forall>m \<in> set ?ms. getattr s m ''category'' = Inr (category_of s m)"
    using typed by (auto simp: list_of_set_def magazines_have_category_def getattr_category)
  then have cats: "map_err (\<lambda>magazine. getattr s magazine ''category'') ?ms
      = Inr (map (category_of s) ?ms)"
    by (rule map_err_total)
  have empty: "(?ms = []) = (?arts = [])"
    by (simp add: list_of_set_def)
  have call: "call_magazines s self = Inr ?ms"
    using recv by (simp add: call_magazines_def Author_magazines_eq [OF ok recv])
  show ?thesis
    unfolding Author_topic_areas_def call bind_err_simps cats empty
    by simp
qed

subsection \<open>When the articles of a run are typed\<close>

lemma getattr_store_attr_author:
  "k \<noteq> ''author'' \<Longrightarrow> getattr (store_attr r k v s) x ''author'' = getattr s x ''author''"
proof (cases x)
  case (PRef a)
  assume k: "k \<noteq> ''author''"
  show ?thesis
  proof (cases "a = r")
    case False
    with PRef show ?thesis
      by (simp add: getattr_store_attr_other)
  next
    case True
    show ?thesis
    proof (cases "heap_at s r")
      case None
      with PRef True show ?thesis
        by (simp add: getattr_def heap_at_store_attr)
    next
      case (Some ob)
      with PRef True k show ?thesis
        by (auto simp: getattr_store_attr_key)
    qed
  qed
qed (simp_all add: getattr_def)

lemma step_author_of:
  assumes "a < length (heap s)" and "\<not> writes_author op"
  shows "author_of (step s op) a = author_of s a"
proof -
  have ne: "a \<noteq> length (heap s)"
    using assms(1) by simp
  have "getattr (step s op) (PRef a) ''author'' = getattr s (PRef a) ''author''"
  proof (cases op)
    case (Assign r at v)
    with assms(2) have "at \<noteq> Attr_author"
      by auto
    then have "attr_name at \<noteq> ''author''"
      by (cases at) simp_all
    with Assign show ?thesis
      by (simp add: assign_attr_cases getattr_store_attr_author)
  qed (simp_all add: assms(1) ne Author_init_cases Magazine_init_cases Article_init_cases
        Author_add_article_cases getattr_new_object getattr_store_attr_other)
  then show ?thesis
    by (simp add: author_of_def)
qed

lemma new_article_author:
  "getattr (store_attr (length (heap s)) ''title'' t
            (store_attr (length (heap s)) ''magazine'' m
              (store_attr (length (heap s)) ''author'' a (snd (new_object Article s)))))
          (PRef (length (heap s))) ''author'' = Inr a"
  by (simp add: getattr_def heap_at_store_attr heap_at_new_object)

lemma step_new_article_author:
  "all_articles (step s op) = all_articles s
   \<or> all_articles (step s op) = all_articles s @ [length (heap s)]
      \<and> isinstance (step s op) (author_of (step s op) (length (heap s))) Author"
  by (cases op)
     (simp_all add: Author_init_cases Magazine_init_cases Article_init_cases
        Author_add_article_cases assign_attr_cases author_of_def new_article_author
        isinstance_new_object)

lemma authors_typed_step:
  assumes ok: "articles_ok s"
    and typed: "\<forall>a \<in> set (all_articles s). isinstance s (author_of s a) Author"
    and op: "\<not> writes_author op"
  shows "\<forall>a \<in> set (all_articles (step s op)). isinstance (step s op) (author_of (step s op) a) Author"
proof -
  have old: "\<forall>a \<in> set (all_articles s). isinstance (step s op) (author_of (step s op) a) Author"
    using typed by (simp add: step_author_of [OF articles_ok_allocated [OF ok] op] step_isinstance)
  from step_new_article_author [of s op] old show ?thesis
    by auto
qed

lemma authors_typed_foldl:
  "articles_ok s \<Longrightarrow> \<forall>a \<in> set (all_articles s). isinstance s (author_of s a) Author \<Longrightarrow>
     \<not> list_ex writes_author ops \<Longrightarrow>
     \<forall>a \<in> set (all_articles (foldl step s ops)).
        isinstance (foldl step s ops) (author_of (foldl step s ops) a) Author"
proof (induction ops arbitrary: s)
  case Nil
  then show ?case by simp
next
  case (Cons op ops)
  from Cons.prems have "articles_ok (step s op)"
    and "\<forall>a \<in> set (all_articles (step s op)). isinstance (step s op) (author_of (step s op) a) Author"
    and "\<not> list_ex writes_author ops"
    by (simp_all add: articles_ok_step authors_typed_step del: step.simps)
  then show ?case
    using Cons.IH [of "step s op"] by simp
qed

lemma run_contributors_are_authors:
  "\<not> list_ex writes_author ops \<Longrightarrow> contributors_are_authors (run ops) m"
  using authors_typed_foldl [of init_state ops]
  by (simp add: contributors_are_authors_def run_def articles_ok_init) (simp add: init_state_def)

lemma new_magazine_category:
  "\<not> isl (getattr (store_attr (length (heap s)) ''_category'' c
              (store_attr (length (heap s)) ''_name'' n (snd (new_object Magazine s))))
            (PRef (length (heap s))) ''category'')"
  by (simp add: getattr_def heap_at_store_attr heap_at_new_object)

lemma step_new_magazine_category:
  "all_magazines (step s op) = all_magazines s
   \<or> all_magazines (step s op) = all_magazines s @ [length (heap s)]
      \<and> \<not> isl (getattr (step s op) (PRef (length (heap s))) ''category'')"
  by (cases op)
     (simp_all add: Author_init_cases Magazine_init_cases Article_init_cases
        Author_add_article_cases assign_attr_cases new_magazine_category)

lemma registered_category_foldl:
  "\<forall>m \<in> set (all_magazines s). \<not> isl (getattr s (PRef m) ''category'') \<Longrightarrow>
     \<forall>m \<in> set (all_magazines (foldl step s ops)).
        \<not> isl (getattr (foldl step s ops) (PRef m) ''category'')"
proof (induction ops arbitrary: s)
  case Nil
  then show ?case by simp
next
  case (Cons op ops)
  have "\<forall>m \<in> set (all_magazines (step s op)). \<not> isl (getattr (step s op) (PRef m) ''category'')"
    using step_new_magazine_category [of s op] Cons.prems
    by (auto simp: step_readable simp del: step.simps)
  then show ?case
    using Cons.IH [of "step s op"] by simp
qed

lemma run_registered_category:
  "m \<in> set (all_magazines (run ops)) \<Longrightarrow> \<not> isl (getattr (run ops) (PRef m) ''category'')"
  using registered_category_foldl [of init_state ops]
  by (simp add: run_def) (simp add: init_state_def)

lemma run_magazines_have_category:
  "\<forall>a \<in> set (all_articles (run ops)).
      author_of (run ops) a = au \<longrightarrow> (\<exists>m \<in> set (all_magazines (run ops)). magazine_of (run ops) a = PRef m)
   \<Longrightarrow> magazines_have_category (run ops) au"
  unfolding magazines_have_category_def using run_registered_category by metis

subsection \<open>The concrete states\<close>

lemma demo_state_run:
  "run [New_Author (PStr ''Alice''), New_Magazine (PStr ''Tech Today'') (PStr ''Technology'')]
     = demo_state"
  by (simp add: run_def init_state_def demo_state_def Author_init_def Magazine_init_def
      Magazine_name_setter_def Magazine_category_setter_def new_object_def store_attr_def)

lemma scenario_state_run: "run scenario_ops = scenario_state"
  by (simp add: run_def scenario_ops_def init_state_def scenario_state_def Author_init_def
      Magazine_init_def Article_init_def Magazine_name_setter_def Magazine_category_setter_def
      new_object_def store_attr_def isinstance_def heap_at_def)

lemma run_snoc: "run (ops @ [op]) = step (run ops) op"
  by (simp add: run_def)

lemma busy_state_explicit:
  "busy_state =
     \<lparr>heap = [\<lparr>cls_of = Magazine,
               attrs = [(''_name'', PStr ''Tech Today''), (''_category'', PStr ''Technology'')]\<rparr>,
              \<lparr>cls_of = Magazine,
               attrs = [(''_name'', PStr ''Health Matters''), (''_category'', PStr ''Health'')]\<rparr>,
              \<lparr>cls_of = Author, attrs = [(''name'', PStr ''Alice'')]\<rparr>,
              \<lparr>cls_of = Author, attrs = [(''name'', PStr ''Bob'')]\<rparr>,
              \<lparr>cls_of = Article,
               attrs = [(''author'', PRef 2), (''magazine'', PRef 0),
                        (''title'', PStr ''Latest Tech Trends'')]\<rparr>,
              \<lparr>cls_of = Article,
               attrs = [(''author'', PRef 3), (''magazine'', PRef 0),
                        (''title'', PStr ''AI in Healthcare'')]\<rparr>,
              \<lparr>cls_of = Article,
               attrs = [(''author'', PRef 2), (''magazine'', PRef 1),
                        (''title'', PStr ''Dietary Tips for 2024'')]\<rparr>,
              \<lparr>cls_of = Article,
               attrs = [(''author'', PRef 2), (''magazine'', PRef 0),
                        (''title'', PStr ''Quantum chips'')]\<rparr>,
              \<lparr>cls_of = Article,
               attrs = [(''author'', PRef 2), (''magazine'', PRef 0),
                        (''title'', PStr ''Edge computing'')]\<rparr>,
              \<lparr>cls_of = Magazine,
               attrs = [(''_name'', PStr ''Vogue''), (''_category'', PStr ''Fashion'')]\<rparr>,
              \<lparr>cls_of = Author, attrs = [(''name'', PStr ''Carol'')]\<rparr>],
      all_articles = [4, 5, 6, 7, 8],
      all_magazines = [0, 1, 9]\<rparr>"
  by (simp add: busy_state_def scenario_state_def Article_init_def Author_add_article_def
      Magazine_init_def Author_init_def Magazine_name_setter_def Magazine_category_setter_def
      new_object_def store_attr_def isinstance_def heap_at_def)

lemma busy_state_ok: "articles_ok busy_state"
  by (simp add: busy_state_explicit articles_ok_def getattr_def heap_at_def)

lemma late_state_explicit:
  "late_state =
     \<lparr>heap = [\<lparr>cls_of = Magazine,
               attrs = [(''_name'', PStr ''Tech Today''), (''_category'', PStr ''Technology'')]\<rparr>,
              \<lparr>cls_of = Magazine,
               attrs = [(''_name'', PStr ''Health Matters''), (''_category'', PStr ''Health'')]\<rparr>,
              \<lparr>cls_of = Author, attrs = [(''name'', PStr ''Alice'')]\<rparr>,
              \<lparr>cls_of = Author, attrs = [(''name'', PStr ''Bob'')]\<rparr>,
              \<lparr>cls_of = Article,
               attrs = [(''author'', PRef 2), (''magazine'', PRef 0),
                        (''title'', PStr ''Latest Tech Trends'')]\<rparr>,
              \<lparr>cls_of = Article,
               attrs = [(''author'', PRef 3), (''magazine'', PRef 0),
                        (''title'', PStr ''AI in Healthcare'')]\<rparr>,
              \<lparr>cls_of = Article,
               attrs = [(''author'', PRef 2), (''magazine'', PRef 1),
                        (''title'', PStr ''Dietary Tips for 2024'')]\<rparr>,
              \<lparr>cls_of = Magazine,
               attrs = [(''_name'', PStr ''Vogue''), (''_category'', PStr ''Fashion'')]\<rparr>,
              \<lparr>cls_of = Article,
               attrs = [(''author'', PRef 2), (''magazine'', PRef 1),
                        (''title'', PStr ''Sleep well'')]\<rparr>,
              \<lparr>cls_of = Article,
               attrs = [(''author'', PRef 2), (''magazine'', PRef 7),
                        (''title'', PStr ''Linen in summer'')]\<rparr>,
              \<lparr>cls_of = Article,
               attrs = [(''author'', PRef 3), (''magazine'', PRef 7),
                        (''title'', PStr ''Wool in winter'')]\<rparr>,
              \<lparr>cls_of = Article,
               attrs = [(''author'', PRef 3), (''magazine'', PRef 1),
                        (''title'', PStr ''Walk more'')]\<rparr>,
              \<lparr>cls_of = Article,
               attrs = [(''author'', PRef 2), (''magazine'', PRef 7),
                        (''title'', PStr ''Silk at night'')]\<rparr>],
      all_articles = [4, 5, 6, 8, 9, 10, 11, 12],
      all_magazines = [0, 1, 7]\<rparr>"
  by (simp add: late_state_def scenario_state_def Article_init_def
      Magazine_init_def Magazine_name_setter_def Magazine_category_setter_def
      new_object_def store_attr_def isinstance_def heap_at_def)

lemma late_state_ok: "articles_ok late_state" "magazines_ok late_state"
  by (simp_all add: late_state_explicit articles_ok_def magazines_ok_def getattr_def heap_at_def
      isinstance_def)

lemma late_state_counts:
  "article_count late_state 0 = 2" "article_count late_state (Suc 0) = 3"
  "article_count late_state 7 = 3"
  by (simp_all add: late_state_explicit article_count_def magazine_of_def getattr_def heap_at_def)

subsection \<open>Creating an article\<close>

text \<open>
  Claim C1. \<open>Article(author, magazine, title)\<close> raises \<open>ValueError\<close> (the spec's
  validation error) and leaves the registry as it was unless \<open>author\<close> is an \<open>Author\<close>
  instance, \<open>magazine\<close> is a \<open>Magazine\<close> instance and \<open>title\<close> is a string of 5 to 50
  characters. For every valid triple the call returns the new article, and the
  registry returned by \<open>get_all_articles\<close> is the old one followed by the new article.
  The new article is not among the old entries, so it occurs exactly once, whenever the
  old entries point into the heap. A second valid creation right after the first puts
  its article behind the first one: the registry is in call order.
\<close>

theorem Article_init_validates_and_appends:
  "(\<not> (isinstance s author Author \<and> isinstance s magazine Magazine \<and> valid_title title) \<longrightarrow>
      fst (Article_init s author magazine title) = Inl ValueError
      \<and> get_all_articles (snd (Article_init s author magazine title)) = get_all_articles s)
   \<and> (isinstance s author Author \<and> isinstance s magazine Magazine \<and> valid_title title \<longrightarrow>
        (\<exists>self. fst (Article_init s author magazine title) = Inr self
           \<and> get_all_articles (snd (Article_init s author magazine title)) = get_all_articles s @ [self]
           \<and> (registry_allocated s \<longrightarrow>
                self \<notin> set (get_all_articles s)
                \<and> count_list (get_all_articles (snd (Article_init s author magazine title))) self = 1)
           \<and> (\<forall>author' magazine' title'.
                isinstance s author' Author \<and> isinstance s magazine' Magazine \<and> valid_title title' \<longrightarrow>
                (\<exists>self'. Article_init (snd (Article_init s author magazine title)) author' magazine' title'
                            = (Inr self', snd (Article_init (snd (Article_init s author magazine title)) author' magazine' title'))
                    \<and> self' \<noteq> self
                    \<and> get_all_articles
                         (snd (Article_init (snd (Article_init s author magazine title)) author' magazine' title'))
                       = get_all_articles s @ [self, self']))))"
proof (intro conjI impI)
  assume inv: "\<not> (isinstance s author Author \<and> isinstance s magazine Magazine \<and> valid_title title)"
  show "fst (Article_init s author magazine title) = Inl ValueError"
    using inv by (simp add: Article_init_fails)
  show "get_all_articles (snd (Article_init s author magazine title)) = get_all_articles s"
    using inv by (simp add: Article_init_fails get_all_articles_def)
next
  let ?r = "Article_init s author magazine title"
  assume ok: "isinstance s author Author \<and> isinstance s magazine Magazine \<and> valid_title title"
  then have eq: "fst ?r = Inr (length (heap s))"
    and reg: "all_articles (snd ?r) = all_articles s @ [length (heap s)]"
    by (simp_all add: Article_init_succeeds)
  have fresh: "registry_allocated s \<longrightarrow>
      length (heap s) \<notin> set (get_all_articles s)
      \<and> count_list (get_all_articles (snd ?r)) (length (heap s)) = 1"
    using reg by (auto simp: get_all_articles_def registry_allocated_def count_list_0_iff)
  have two: "\<forall>author' magazine' title'.
      isinstance s author' Author \<and> isinstance s magazine' Magazine \<and> valid_title title' \<longrightarrow>
      (\<exists>self'. Article_init (snd ?r) author' magazine' title'
                  = (Inr self', snd (Article_init (snd ?r) author' magazine' title'))
          \<and> self' \<noteq> length (heap s)
          \<and> get_all_articles (snd (Article_init (snd ?r) author' magazine' title'))
             = get_all_articles s @ [length (heap s), self'])"
  proof (intro allI impI)
    fix author' magazine' title'
    assume ok': "isinstance s author' Author \<and> isinstance s magazine' Magazine \<and> valid_title title'"
    then have ok2: "isinstance (snd ?r) author' Author" "isinstance (snd ?r) magazine' Magazine"
      "valid_title title'"
      by (simp_all add: isinstance_Article_init)
    show "\<exists>self'. Article_init (snd ?r) author' magazine' title'
                  = (Inr self', snd (Article_init (snd ?r) author' magazine' title'))
          \<and> self' \<noteq> length (heap s)
          \<and> get_all_articles (snd (Article_init (snd ?r) author' magazine' title'))
             = get_all_articles s @ [length (heap s), self']"
      using reg by (simp add: Article_init_succeeds [OF ok2] heap_length_Article_init get_all_articles_def)
  qed
  show "\<exists>self. fst ?r = Inr self
           \<and> get_all_articles (snd ?r) = get_all_articles s @ [self]
           \<and> (registry_allocated s \<longrightarrow>
                self \<notin> set (get_all_articles s)
                \<and> count_list (get_all_articles (snd ?r)) self = 1)
           \<and> (\<forall>author' magazine' title'.
                isinstance s author' Author \<and> isinstance s magazine' Magazine \<and> valid_title title' \<longrightarrow>
                (\<exists>self'. Article_init (snd ?r) author' magazine' title'
                            = (Inr self', snd (Article_init (snd ?r) author' magazine' title'))
                    \<and> self' \<noteq> self
                    \<and> get_all_articles (snd (Article_init (snd ?r) author' magazine' title'))
                       = get_all_articles s @ [self, self']))"
    using eq reg fresh two by (intro exI [of _ "length (heap s)"]) (simp add: get_all_articles_def)
qed

theorem Article_init_validates_and_appends_witness:
  "fst (Article_init demo_state (PRef 0) (PRef 1) (PStr ''Latest Tech Trends'')) = Inr 2
   \<and> get_all_articles (snd (Article_init demo_state (PRef 0) (PRef 1) (PStr ''Latest Tech Trends''))) = [2]
   \<and> fst (Article_init demo_state (PRef 0) (PRef 1) (PStr ''Test'')) = Inl ValueError
   \<and> get_all_articles (snd (Article_init demo_state (PRef 0) (PRef 1) (PStr ''Test''))) = []"
  using Article_init_validates_and_appends [of demo_state "PRef 0" "PRef 1" "PStr ''Latest Tech Trends''"]
    Article_init_validates_and_appends [of demo_state "PRef 0" "PRef 1" "PStr ''Test''"]
  by (simp add: Article_init_def new_object_def store_attr_def isinstance_def heap_at_def
      demo_state_def get_all_articles_def valid_title_def registry_allocated_def)

subsection \<open>The articles of an author\<close>

text \<open>
  Claim C5. In a well-formed registry, \<open>author.articles()\<close> raises nothing and returns
  the registry filtered by \<open>article.author == author\<close>: the articles whose author is
  that very instance, in registry order. Creating an article for another author does
  not change the result; creating one for this author appends it.
\<close>

theorem Author_articles_by_identity:
  "articles_ok s \<Longrightarrow>
     Author_articles s self = Inr (filter (\<lambda>a. author_of s a = self) (get_all_articles s))
     \<and> (\<forall>a \<in> set (get_all_articles s). getattr s (PRef a) ''author'' = Inr (author_of s a))
     \<and> (\<forall>other magazine title r s'.
          other \<noteq> self \<and> Article_init s other magazine title = (Inr r, s') \<longrightarrow>
          Author_articles s' self = Author_articles s self)
     \<and> (\<forall>magazine title r s'.
          Article_init s self magazine title = (Inr r, s') \<longrightarrow>
          Author_articles s' self
            = Inr (filter (\<lambda>a. author_of s a = self) (get_all_articles s) @ [r]))"
  by (auto simp: Author_articles_Article_init Author_articles_filter get_all_articles_def getattr_author)

theorem Author_articles_by_identity_witness:
  "articles_ok scenario_state
   \<and> Author_articles scenario_state (PRef 2) = Inr [4, 6]
   \<and> Author_articles scenario_state (PRef 3) = Inr [5]
   \<and> fst (Article_init scenario_state (PRef 3) (PRef 1) (PStr ''Sleep well'')) = Inr 7
   \<and> Author_articles (snd (Article_init scenario_state (PRef 3) (PRef 1) (PStr ''Sleep well''))) (PRef 2)
       = Inr [4, 6]
   \<and> Author_articles (snd (Article_init scenario_state (PRef 3) (PRef 1) (PStr ''Sleep well''))) (PRef 3)
       = Inr [5, 7]"
  using Author_articles_by_identity [of scenario_state "PRef 2"]
    Author_articles_by_identity [of scenario_state "PRef 3"]
  by (simp add: articles_ok_def scenario_state_def getattr_def heap_at_def author_of_def
      get_all_articles_def Article_init_def new_object_def isinstance_def store_attr_def
      Author_articles_def)

subsection \<open>Validation of a magazine's name and category\<close>

text \<open>
  Claim C6. \<open>Magazine.name\<close> and \<open>Magazine.category\<close> are validated by their
  setters, which run on every assignment, the two assignments in \<open>Magazine.__init__\<close>
  included. A name that is not a string of 2 to 16 characters, or a category that is
  not a non-empty string, raises \<open>ValueError\<close> in a later assignment and in the
  construction alike; valid values are accepted.
\<close>

theorem Magazine_validates_every_assignment:
  "(\<not> valid_name v \<longrightarrow> fst (Magazine_name_setter s self v) = Inl ValueError)
   \<and> (\<not> valid_category v \<longrightarrow> fst (Magazine_category_setter s self v) = Inl ValueError)
   \<and> (\<not> valid_name name \<or> \<not> valid_category category \<longrightarrow>
        fst (Magazine_init s name category) = Inl ValueError)
   \<and> (valid_name v \<longrightarrow> fst (Magazine_name_setter s self v) = Inr ())
   \<and> (valid_category v \<longrightarrow> fst (Magazine_category_setter s self v) = Inr ())
   \<and> (valid_name name \<and> valid_category category \<longrightarrow>
        fst (Magazine_init s name category) = Inr (length (heap s)))"
  by (simp add: Magazine_name_setter_cases Magazine_category_setter_cases Magazine_init_cases)

theorem Magazine_validates_every_assignment_witness:
  "fst (Magazine_name_setter scenario_state 0 (PStr ''T'')) = Inl ValueError
   \<and> fst (Magazine_name_setter scenario_state 0 (PStr ''Seventeen letters'')) = Inl ValueError
   \<and> fst (Magazine_name_setter scenario_state 0 (PInt 7)) = Inl ValueError
   \<and> fst (Magazine_category_setter scenario_state 0 (PStr '''')) = Inl ValueError
   \<and> fst (Magazine_init scenario_state (PStr ''T'') (PStr ''Technology'')) = Inl ValueError
   \<and> fst (Magazine_init scenario_state (PStr ''Seventeen letters'') (PStr ''Technology'')) = Inl ValueError
   \<and> fst (Magazine_init scenario_state (PStr ''Vogue'') (PStr '''')) = Inl ValueError
   \<and> fst (Magazine_name_setter scenario_state 0 (PStr ''AD'')) = Inr ()
   \<and> fst (Magazine_category_setter scenario_state 0 (PStr ''Fashion'')) = Inr ()
   \<and> fst (Magazine_init scenario_state (PStr ''Vogue'') (PStr ''Fashion'')) = Inr 7"
  using Magazine_validates_every_assignment [of "PStr ''T''" scenario_state 0 "PStr ''T''" "PStr ''Technology''"]
    Magazine_validates_every_assignment [of "PStr ''Seventeen letters''" scenario_state 0
       "PStr ''Seventeen letters''" "PStr ''Technology''"]
    Magazine_validates_every_assignment [of "PInt 7" scenario_state 0 "PStr ''Vogue''" "PStr ''''"]
    Magazine_validates_every_assignment [of "PStr ''''" scenario_state 0 "PStr ''Vogue''" "PStr ''Fashion''"]
    Magazine_validates_every_assignment [of "PStr ''AD''" scenario_state 0 "PStr ''Vogue''" "PStr ''Fashion''"]
    Magazine_validates_every_assignment [of "PStr ''Fashion''" scenario_state 0 "PStr ''Vogue''" "PStr ''Fashion''"]
  by (simp add: valid_name_def valid_category_def scenario_state_def)

subsection \<open>Failed validations change nothing\<close>

text \<open>
  Claim C7. When \<open>Article(...)\<close> or \<open>Magazine(...)\<close> raises, both registries are what
  they were and every object that existed before is unchanged: the heap after the
  failure is the old heap followed by the abandoned instance, to which nothing
  refers. When an assignment to a magazine's \<open>name\<close> or \<open>category\<close> raises, the state
  is unchanged altogether, so the field keeps its prior value.
\<close>

theorem validation_failure_is_atomic:
  "(fst (Article_init s author magazine title) = Inl e \<longrightarrow>
      all_articles (snd (Article_init s author magazine title)) = all_articles s
      \<and> all_magazines (snd (Article_init s author magazine title)) = all_magazines s
      \<and> take (length (heap s)) (heap (snd (Article_init s author magazine title))) = heap s)
   \<and> (fst (Magazine_init s name category) = Inl e \<longrightarrow>
      all_articles (snd (Magazine_init s name category)) = all_articles s
      \<and> all_magazines (snd (Magazine_init s name category)) = all_magazines s
      \<and> take (length (heap s)) (heap (snd (Magazine_init s name category))) = heap s)
   \<and> (fst (Magazine_name_setter s self v) = Inl e \<longrightarrow> snd (Magazine_name_setter s self v) = s)
   \<and> (fst (Magazine_category_setter s self v) = Inl e \<longrightarrow>
        snd (Magazine_category_setter s self v) = s)"
  by (simp add: Article_init_cases Magazine_init_cases Magazine_name_setter_cases
      Magazine_category_setter_cases take_heap_store_attr heap_new_object)

theorem validation_failure_is_atomic_witness:
  "fst (Article_init scenario_state (PRef 2) (PRef 0) (PStr ''Test'')) = Inl ValueError
   \<and> all_articles (snd (Article_init scenario_state (PRef 2) (PRef 0) (PStr ''Test''))) = [4, 5, 6]
   \<and> fst (Magazine_init scenario_state (PStr ''Vogue'') (PStr '''')) = Inl ValueError
   \<and> all_magazines (snd (Magazine_init scenario_state (PStr ''Vogue'') (PStr ''''))) = [0, 1]
   \<and> take 7 (heap (snd (Magazine_init scenario_state (PStr ''Vogue'') (PStr '''')))) = heap scenario_state
   \<and> fst (Magazine_name_setter scenario_state 0 (PStr ''T'')) = Inl ValueError
   \<and> getattr (snd (Magazine_name_setter scenario_state 0 (PStr ''T''))) (PRef 0) ''name''
        = Inr (PStr ''Tech Today'')
   \<and> fst (Magazine_category_setter scenario_state 0 (PStr '''')) = Inl ValueError
   \<and> getattr (snd (Magazine_category_setter scenario_state 0 (PStr ''''))) (PRef 0) ''category''
        = Inr (PStr ''Technology'')"
  using validation_failure_is_atomic [of scenario_state "PRef 2" "PRef 0" "PStr ''Test''" ValueError
      "PStr ''Vogue''" "PStr ''''" 0 "PStr ''T''"]
    validation_failure_is_atomic [of scenario_state "PRef 2" "PRef 0" "PStr ''Test''" ValueError
      "PStr ''Vogue''" "PStr ''''" 0 "PStr ''''"]
  by (simp add: Article_init_cases Magazine_init_cases Magazine_name_setter_cases
      Magazine_category_setter_cases valid_name_def valid_category_def valid_title_def
      isinstance_def heap_at_def getattr_def scenario_state_def new_object_def store_attr_def)

subsection \<open>Adding an article through its author\<close>

text \<open>
  Claim C3, as stated, fails: \<open>add_article\<close> does not accept every string title,
  because \<open>Article.__init__\<close> checks the length. With a valid magazine and the string
  title \<open>Test\<close> the call raises \<open>ValueError\<close>.
\<close>

theorem Author_add_article_any_string_counterexample:
  "isinstance demo_state (PRef 0) Author
   \<and> isinstance demo_state (PRef 1) Magazine
   \<and> isinstance_str (PStr ''Test'')
   \<and> fst (Author_add_article demo_state (PRef 0) (PRef 1) (PStr ''Test'')) = Inl ValueError"
  by (simp add: Author_add_article_def Article_init_cases valid_title_def isinstance_def heap_at_def
      demo_state_def)

text \<open>
  Claim C3, amended. \<open>author.add_article(magazine, title)\<close> raises \<open>ValueError\<close> and
  changes nothing if \<open>magazine\<close> is not a \<open>Magazine\<close> instance or \<open>title\<close> is not a
  string. For an author, a \<open>Magazine\<close> instance and a string title of 5 to 50
  characters it returns a new article whose author is the receiver, registered at the
  end of the registry. For a string title of any other length it raises \<open>ValueError\<close>
  and registers nothing.
\<close>

theorem Author_add_article_validated:
  "(\<not> isinstance s magazine Magazine \<or> \<not> isinstance_str title \<longrightarrow>
      Author_add_article s self magazine title = (Inl ValueError, s))
   \<and> (isinstance s self Author \<and> isinstance s magazine Magazine \<and> valid_title title \<longrightarrow>
        (\<exists>r s'. Author_add_article s self magazine title = (Inr r, s')
           \<and> getattr s' (PRef r) ''author'' = Inr self
           \<and> getattr s' (PRef r) ''magazine'' = Inr magazine
           \<and> getattr s' (PRef r) ''title'' = Inr title
           \<and> all_articles s' = all_articles s @ [r]))
   \<and> (isinstance_str title \<and> \<not> valid_title title \<longrightarrow>
        fst (Author_add_article s self magazine title) = Inl ValueError
        \<and> all_articles (snd (Author_add_article s self magazine title)) = all_articles s)"
proof (intro conjI impI)
  assume "\<not> isinstance s magazine Magazine \<or> \<not> isinstance_str title"
  then show "Author_add_article s self magazine title = (Inl ValueError, s)"
    by (auto simp: Author_add_article_def)
next
  assume ok: "isinstance s self Author \<and> isinstance s magazine Magazine \<and> valid_title title"
  then have str: "isinstance_str title"
    by (simp add: valid_title_iff)
  obtain r s' where init: "Article_init s self magazine title = (Inr r, s')"
    using ok by (simp add: Article_init_succeeds)
  have "Author_add_article s self magazine title = (Inr r, s')"
    using ok str init by (simp add: Author_add_article_def)
  with Article_init_getattr_new [OF init]
  show "\<exists>r s'. Author_add_article s self magazine title = (Inr r, s')
           \<and> getattr s' (PRef r) ''author'' = Inr self
           \<and> getattr s' (PRef r) ''magazine'' = Inr magazine
           \<and> getattr s' (PRef r) ''title'' = Inr title
           \<and> all_articles s' = all_articles s @ [r]"
    by blast
next
  assume bad: "isinstance_str title \<and> \<not> valid_title title"
  then show "fst (Author_add_article s self magazine title) = Inl ValueError"
    by (simp add: Author_add_article_def Article_init_fails)
  show "all_articles (snd (Author_add_article s self magazine title)) = all_articles s"
    using bad by (simp add: Author_add_article_def Article_init_fails)
qed

theorem Author_add_article_validated_witness:
  "fst (Author_add_article demo_state (PRef 0) (PRef 1) (PStr ''Latest Tech Trends'')) = Inr 2
   \<and> getattr (snd (Author_add_article demo_state (PRef 0) (PRef 1) (PStr ''Latest Tech Trends'')))
        (PRef 2) ''author'' = Inr (PRef 0)
   \<and> fst (Author_add_article demo_state (PRef 0) (PRef 0) (PStr ''Latest Tech Trends'')) = Inl ValueError
   \<and> fst (Author_add_article demo_state (PRef 0) (PRef 1) (PInt 500)) = Inl ValueError
   \<and> fst (Author_add_article demo_state (PRef 0) (PRef 1) (PStr ''Test'')) = Inl ValueError"
  using Author_add_article_validated [of demo_state "PRef 1" "PStr ''Latest Tech Trends''" "PRef 0"]
    Author_add_article_validated [of demo_state "PRef 0" "PStr ''Latest Tech Trends''" "PRef 0"]
    Author_add_article_validated [of demo_state "PRef 1" "PInt 500" "PRef 0"]
    Author_add_article_validated [of demo_state "PRef 1" "PStr ''Test''" "PRef 0"]
  by (simp add: Author_add_article_def Article_init_def new_object_def store_attr_def
      isinstance_def heap_at_def getattr_def valid_title_def demo_state_def)

subsection \<open>The top publisher\<close>

text \<open>
  Claim C2. \<open>Magazine.top_publisher()\<close> returns \<open>None\<close> when the article registry is
  empty. On well-formed registries the count of a magazine is the length of its
  \<open>articles()\<close>; the call returns \<open>None\<close> when every magazine in
  \<open>Magazine.all_magazines\<close> has count zero, and otherwise returns a magazine of
  \<open>Magazine.all_magazines\<close> with the greatest count, namely the first such one: every
  magazine before it in the scan has a strictly smaller count, and none after it has
  a greater one.
\<close>

theorem top_publisher_first_maximum:
  "(get_all_articles s = [] \<longrightarrow> Magazine_top_publisher s = Inr None)
   \<and> (articles_ok s \<and> magazines_ok s \<longrightarrow>
        (\<forall>m \<in> set (all_magazines s).
            \<exists>arts. Magazine_articles s (PRef m) = Inr arts \<and> length arts = article_count s m)
        \<and> ((\<forall>m \<in> set (all_magazines s). article_count s m = 0) \<longrightarrow>
              Magazine_top_publisher s = Inr None)
        \<and> (get_all_articles s \<noteq> [] \<and> (\<exists>m \<in> set (all_magazines s). article_count s m \<noteq> 0) \<longrightarrow>
              (\<exists>m before after.
                  Magazine_top_publisher s = Inr (Some m)
                  \<and> all_magazines s = before @ m # after
                  \<and> (\<forall>x \<in> set before. article_count s x < article_count s m)
                  \<and> (\<forall>x \<in> set after. article_count s x \<le> article_count s m))))"
proof (intro conjI impI ballI)
  assume "get_all_articles s = []"
  then show "Magazine_top_publisher s = Inr None"
    by (simp add: Magazine_top_publisher_def)
next
  fix m
  assume "articles_ok s \<and> magazines_ok s"
  then show "\<exists>arts. Magazine_articles s (PRef m) = Inr arts \<and> length arts = article_count s m"
    by (simp add: Magazine_articles_length)
next
  assume "articles_ok s \<and> magazines_ok s" and "\<forall>m \<in> set (all_magazines s). article_count s m = 0"
  then show "Magazine_top_publisher s = Inr None"
    by (simp add: top_publisher_char)
next
  assume ok: "articles_ok s \<and> magazines_ok s"
    and some: "get_all_articles s \<noteq> [] \<and> (\<exists>m \<in> set (all_magazines s). article_count s m \<noteq> 0)"
  let ?m = "max_from (article_count s) (hd (all_magazines s)) (tl (all_magazines s))"
  from some have ne: "all_magazines s \<noteq> []"
    by auto
  have top: "Magazine_top_publisher s = Inr (Some ?m)"
    using ok some by (simp add: top_publisher_char get_all_articles_def)
  from first_max_split [OF ne, of "article_count s"] top
  show "\<exists>m before after.
          Magazine_top_publisher s = Inr (Some m)
          \<and> all_magazines s = before @ m # after
          \<and> (\<forall>x \<in> set before. article_count s x < article_count s m)
          \<and> (\<forall>x \<in> set after. article_count s x \<le> article_count s m)"
    by blast
qed

theorem top_publisher_first_maximum_witness:
  "Magazine_top_publisher demo_state = Inr None
   \<and> articles_ok scenario_state \<and> magazines_ok scenario_state
   \<and> article_count scenario_state 0 = 2 \<and> article_count scenario_state 1 = 1
   \<and> Magazine_top_publisher scenario_state = Inr (Some 0)
   \<and> articles_ok stray_state \<and> magazines_ok stray_state
   \<and> get_all_articles stray_state = [2] \<and> all_magazines stray_state = [1]
   \<and> article_count stray_state 1 = 0
   \<and> Magazine_top_publisher stray_state = Inr None"
  using top_publisher_first_maximum [of demo_state] top_publisher_first_maximum [of scenario_state]
    top_publisher_first_maximum [of stray_state]
  by (simp add: Magazine_top_publisher_def magazine_article_counts_def call_articles_def
      Magazine_articles_def Author_articles_def isinstance_def heap_at_def getattr_def
      get_all_articles_def py_max_def scenario_state_def demo_state_def
      stray_state_def assign_attr_def Article_init_def new_object_def
      store_attr_def articles_ok_def magazines_ok_def article_count_def magazine_of_def)

subsection \<open>Reassigning an article\<close>

text \<open>
  Claim C9. Assigning \<open>article.magazine\<close> or \<open>article.author\<close> of a registered article
  succeeds for every value, with no validation, and the attribute then holds that
  value. The queries read the current attributes: after \<open>article.magazine = v\<close>, the
  articles and contributors of any magazine \<open>m\<close> are those of the registry with this
  article counted under \<open>v\<close>; the count of the new magazine goes up by one and that of
  the old magazine down by one; \<open>top_publisher\<close> takes its maximum over the counts of
  the state after the assignment. Likewise \<open>Author.articles\<close> after
  \<open>article.author = v\<close>.
\<close>

theorem reassignment_moves_article:
  "articles_ok s \<and> a \<in> set (get_all_articles s) \<longrightarrow>
     (fst (assign_attr s a ''magazine'' v) = Inr ()
      \<and> getattr (snd (assign_attr s a ''magazine'' v)) (PRef a) ''magazine'' = Inr v
      \<and> Magazine_articles (snd (assign_attr s a ''magazine'' v)) m
          = Inr (filter (\<lambda>x. (if x = a then v else magazine_of s x) = m) (get_all_articles s))
      \<and> Magazine_contributors (snd (assign_attr s a ''magazine'' v)) m
          = Inr (list_of_set (map (author_of s)
                  (filter (\<lambda>x. (if x = a then v else magazine_of s x) = m) (get_all_articles s))))
      \<and> (magazine_of s a \<noteq> PRef new \<and> v = PRef new \<longrightarrow>
            article_count (snd (assign_attr s a ''magazine'' v)) new = Suc (article_count s new))
      \<and> (magazine_of s a = PRef old \<and> v \<noteq> PRef old \<longrightarrow>
            Suc (article_count (snd (assign_attr s a ''magazine'' v)) old) = article_count s old)
      \<and> (magazines_ok s \<longrightarrow>
            Magazine_top_publisher (snd (assign_attr s a ''magazine'' v))
              = Inr (if \<forall>k \<in> set (all_magazines s).
                          article_count (snd (assign_attr s a ''magazine'' v)) k = 0
                     then None
                     else Some (max_from (article_count (snd (assign_attr s a ''magazine'' v)))
                                  (hd (all_magazines s)) (tl (all_magazines s)))))
      \<and> fst (assign_attr s a ''author'' v) = Inr ()
      \<and> getattr (snd (assign_attr s a ''author'' v)) (PRef a) ''author'' = Inr v
      \<and> Author_articles (snd (assign_attr s a ''author'' v)) w
          = Inr (filter (\<lambda>x. (if x = a then v else author_of s x) = w) (get_all_articles s)))"
proof (intro impI)
  assume asm: "articles_ok s \<and> a \<in> set (get_all_articles s)"
  then have ok: "articles_ok s" and a: "a \<in> set (all_articles s)"
    by (simp_all add: get_all_articles_def)
  let ?m = "snd (assign_attr s a ''magazine'' v)"
  let ?a = "snd (assign_attr s a ''author'' v)"
  have okm: "articles_ok ?m" and oka: "articles_ok ?a"
    using ok by (simp_all add: articles_ok_assign)
  have regm: "all_articles ?m = all_articles s" and rega: "all_articles ?a = all_articles s"
    by (simp_all add: assign_registries)
  have a_m: "a \<in> set (all_articles ?m)" and a_a: "a \<in> set (all_articles ?a)"
    using a by (simp_all add: regm rega)
  have mag: "\<And>x. magazine_of ?m x = (if x = a then v else magazine_of s x)"
    and aut: "\<And>x. author_of ?m x = author_of s x"
    by (simp_all add: assign_magazine_effect [OF ok a])
  have aut_fn: "author_of ?m = author_of s"
    by (rule ext) (rule aut)
  have aut': "\<And>x. author_of ?a x = (if x = a then v else author_of s x)"
    by (simp add: assign_author_effect [OF ok a])
  have c1: "fst (assign_attr s a ''magazine'' v) = Inr ()" "fst (assign_attr s a ''author'' v) = Inr ()"
    by (simp_all add: assign_plain)
  have c2: "getattr ?m (PRef a) ''magazine'' = Inr v"
    using getattr_magazine [OF okm a_m] by (simp add: mag)
  have c2': "getattr ?a (PRef a) ''author'' = Inr v"
    using getattr_author [OF oka a_a] by (simp add: aut')
  have c3: "Magazine_articles ?m m
      = Inr (filter (\<lambda>x. (if x = a then v else magazine_of s x) = m) (get_all_articles s))"
    by (simp add: Magazine_articles_filter [OF okm] mag regm get_all_articles_def)
  have c4: "Magazine_contributors ?m m
      = Inr (list_of_set (map (author_of s)
              (filter (\<lambda>x. (if x = a then v else magazine_of s x) = m) (get_all_articles s))))"
    by (simp add: Magazine_contributors_eq [OF okm] mag aut_fn regm get_all_articles_def)
  have dist: "distinct (all_articles s)"
    using ok by (simp add: articles_ok_def)
  have cnt: "\<And>k. article_count ?m k
      = length (filter (\<lambda>x. (if x = a then v else magazine_of s x) = PRef k) (all_articles s))"
    by (simp add: article_count_def mag regm)
  have c5: "magazine_of s a \<noteq> PRef new \<and> v = PRef new \<longrightarrow>
      article_count ?m new = Suc (article_count s new)"
  proof (intro impI, elim conjE)
    assume n: "magazine_of s a \<noteq> PRef new" and v: "v = PRef new"
    show "article_count ?m new = Suc (article_count s new)"
      unfolding cnt unfolding v article_count_def
      by (rule count_after_move(1) [OF dist a, of "magazine_of s" "PRef new", OF n])
  qed
  have c6: "magazine_of s a = PRef old \<and> v \<noteq> PRef old \<longrightarrow>
      Suc (article_count ?m old) = article_count s old"
  proof (intro impI, elim conjE)
    assume o: "magazine_of s a = PRef old" and v: "v \<noteq> PRef old"
    show "Suc (article_count ?m old) = article_count s old"
      unfolding cnt unfolding article_count_def
      by (rule count_after_move(2) [OF dist a, of "magazine_of s" "PRef old" v, OF o v])
  qed
  have c7: "magazines_ok s \<longrightarrow>
      Magazine_top_publisher ?m
        = Inr (if \<forall>k \<in> set (all_magazines s). article_count ?m k = 0 then None
               else Some (max_from (article_count ?m) (hd (all_magazines s)) (tl (all_magazines s))))"
  proof
    assume "magazines_ok s"
    then have "magazines_ok ?m"
      by (rule magazines_ok_assign)
    from top_publisher_char [OF okm this] a show
      "Magazine_top_publisher ?m
        = Inr (if \<forall>k \<in> set (all_magazines s). article_count ?m k = 0 then None
               else Some (max_from (article_count ?m) (hd (all_magazines s)) (tl (all_magazines s))))"
      by (auto simp: regm assign_registries)
  qed
  have c8: "Author_articles ?a w
      = Inr (filter (\<lambda>x. (if x = a then v else author_of s x) = w) (get_all_articles s))"
    by (simp add: Author_articles_filter [OF oka] aut' rega get_all_articles_def)
  from c1 c2 c2' c3 c4 c5 c6 c7 c8
  show "fst (assign_attr s a ''magazine'' v) = Inr ()
      \<and> getattr ?m (PRef a) ''magazine'' = Inr v
      \<and> Magazine_articles ?m m
          = Inr (filter (\<lambda>x. (if x = a then v else magazine_of s x) = m) (get_all_articles s))
      \<and> Magazine_contributors ?m m
          = Inr (list_of_set (map (author_of s)
                  (filter (\<lambda>x. (if x = a then v else magazine_of s x) = m) (get_all_articles s))))
      \<and> (magazine_of s a \<noteq> PRef new \<and> v = PRef new \<longrightarrow>
            article_count ?m new = Suc (article_count s new))
      \<and> (magazine_of s a = PRef old \<and> v \<noteq> PRef old \<longrightarrow>
            Suc (article_count ?m old) = article_count s old)
      \<and> (magazines_ok s \<longrightarrow>
            Magazine_top_publisher ?m
              = Inr (if \<forall>k \<in> set (all_magazines s). article_count ?m k = 0 then None
                     else Some (max_from (article_count ?m) (hd (all_magazines s)) (tl (all_magazines s)))))
      \<and> fst (assign_attr s a ''author'' v) = Inr ()
      \<and> getattr ?a (PRef a) ''author'' = Inr v
      \<and> Author_articles ?a w
          = Inr (filter (\<lambda>x. (if x = a then v else author_of s x) = w) (get_all_articles s))"
    by (intro conjI)
qed

theorem reassignment_moves_article_witness:
  "articles_ok scenario_state \<and> magazines_ok scenario_state
   \<and> 5 \<in> set (get_all_articles scenario_state)
   \<and> Magazine_articles scenario_state (PRef 0) = Inr [4, 5]
   \<and> Magazine_articles scenario_state (PRef 1) = Inr [6]
   \<and> Magazine_top_publisher scenario_state = Inr (Some 0)
   \<and> fst (assign_attr scenario_state 5 ''magazine'' (PRef 1)) = Inr ()
   \<and> Magazine_articles (snd (assign_attr scenario_state 5 ''magazine'' (PRef 1))) (PRef 0) = Inr [4]
   \<and> Magazine_articles (snd (assign_attr scenario_state 5 ''magazine'' (PRef 1))) (PRef 1) = Inr [5, 6]
   \<and> Magazine_top_publisher (snd (assign_attr scenario_state 5 ''magazine'' (PRef 1))) = Inr (Some 1)
   \<and> fst (assign_attr scenario_state 5 ''magazine'' (PInt 7)) = Inr ()
   \<and> getattr (snd (assign_attr scenario_state 5 ''magazine'' (PInt 7))) (PRef 5) ''magazine''
       = Inr (PInt 7)
   \<and> Author_articles (snd (assign_attr scenario_state 5 ''author'' (PRef 2))) (PRef 2) = Inr [4, 5, 6]
   \<and> Author_articles (snd (assign_attr scenario_state 5 ''author'' (PRef 2))) (PRef 3) = Inr []"
  using reassignment_moves_article [of scenario_state 5 "PRef 1" "PRef 0" 1 0 "PRef 2"]
  by (simp add: Magazine_top_publisher_def magazine_article_counts_def call_articles_def
      Magazine_articles_def Author_articles_def isinstance_def heap_at_def getattr_def
      get_all_articles_def py_max_def scenario_state_def assign_attr_def store_attr_def
      articles_ok_def magazines_ok_def magazine_of_def author_of_def Magazine_contributors_def
      article_count_def list_of_set_def)

subsection \<open>The registry of magazines\<close>

text \<open>
  Claim C10. A successful \<open>Magazine(...)\<close> appends the new instance to
  \<open>Magazine.all_magazines\<close>, where it was not before. No call of the three classes
  removes an entry: after any call, and after any sequence of calls, the old registry
  is a prefix of the new one. \<open>top_publisher\<close> scans the registry in this order: its
  dictionary of counts has one entry for every registered magazine, in registry order,
  also for a magazine without articles, whose entry is zero. The magazine it returns
  is registered, no registered magazine has a greater count, and every other magazine
  with the same count comes later in the registry, that is, was constructed later.
\<close>

theorem all_magazines_in_construction_order:
  "(\<forall>n c r s'. Magazine_init s n c = (Inr r, s') \<longrightarrow>
       all_magazines s' = all_magazines s @ [r]
       \<and> (magazines_ok s \<longrightarrow> r \<notin> set (all_magazines s)))
   \<and> (\<exists>ms. all_magazines (step s op) = all_magazines s @ ms)
   \<and> (\<exists>ms. all_magazines (foldl step s ops) = all_magazines s @ ms)
   \<and> (articles_ok s \<and> magazines_ok s \<longrightarrow>
         magazine_article_counts s = Inr (map (\<lambda>m. (m, article_count s m)) (all_magazines s)))
   \<and> (articles_ok s \<and> magazines_ok s \<and> Magazine_top_publisher s = Inr (Some m) \<longrightarrow>
         m \<in> set (all_magazines s)
         \<and> (\<forall>m' \<in> set (all_magazines s). article_count s m' \<le> article_count s m)
         \<and> (\<forall>m' \<in> set (all_magazines s).
               m' \<noteq> m \<and> article_count s m' = article_count s m \<longrightarrow>
               (\<exists>xs ys zs. all_magazines s = xs @ m # ys @ m' # zs)))"
proof (intro conjI allI impI)
  fix n c r s'
  assume init: "Magazine_init s n c = (Inr r, s')"
  note new = Magazine_init_success [OF init]
  show "all_magazines s' = all_magazines s @ [r]"
    by (rule new(2))
  {
    assume "magazines_ok s"
    then show "r \<notin> set (all_magazines s)"
      using isinstance_allocated [of s r Magazine] new(1) by (auto simp: magazines_ok_def)
  }
next
  show "\<exists>ms. all_magazines (step s op) = all_magazines s @ ms"
    using step_all_magazines [of s op] by auto
next
  show "\<exists>ms. all_magazines (foldl step s ops) = all_magazines s @ ms"
    by (rule foldl_step_all_magazines)
next
  assume "articles_ok s \<and> magazines_ok s"
  then show "magazine_article_counts s = Inr (map (\<lambda>m. (m, article_count s m)) (all_magazines s))"
    by (simp add: magazine_article_counts_eq)
next
  assume asm: "articles_ok s \<and> magazines_ok s \<and> Magazine_top_publisher s = Inr (Some m)"
  let ?ms = "all_magazines s"
  from asm have char: "Inr (Some m) =
      Inr (if all_articles s = [] \<or> (\<forall>m \<in> set ?ms. article_count s m = 0) then None
           else Some (max_from (article_count s) (hd ?ms) (tl ?ms)))"
    using top_publisher_char [of s] by simp
  then have some: "\<not> (all_articles s = [] \<or> (\<forall>m \<in> set ?ms. article_count s m = 0))"
    and m: "m = max_from (article_count s) (hd ?ms) (tl ?ms)"
    by (simp_all split: if_splits)
  from some have ne: "?ms \<noteq> []"
    by auto
  from first_max_split [OF ne, of "article_count s"] m
  obtain before after where split: "?ms = before @ m # after"
    and lt: "\<forall>y \<in> set before. article_count s y < article_count s m"
    and le: "\<forall>z \<in> set after. article_count s z \<le> article_count s m"
    by blast
  show "m \<in> set ?ms"
    by (subst split) simp
  show "\<forall>m' \<in> set ?ms. article_count s m' \<le> article_count s m"
  proof
    fix m'
    assume "m' \<in> set ?ms"
    then have "m' \<in> set before \<or> m' = m \<or> m' \<in> set after"
      by (subst (asm) split) auto
    with lt le show "article_count s m' \<le> article_count s m"
      by (auto intro: less_imp_le)
  qed
  show "\<forall>m' \<in> set ?ms. m' \<noteq> m \<and> article_count s m' = article_count s m \<longrightarrow>
          (\<exists>xs ys zs. ?ms = xs @ m # ys @ m' # zs)"
  proof (intro ballI impI)
    fix m'
    assume m': "m' \<in> set ?ms" and tie: "m' \<noteq> m \<and> article_count s m' = article_count s m"
    from tie lt have "m' \<notin> set before"
      by auto
    with m' tie split have "m' \<in> set after"
      by (metis Un_iff set_append set_ConsD)
    then obtain ys zs where "after = ys @ m' # zs"
      by (auto dest: split_list)
    with split show "\<exists>xs ys zs. ?ms = xs @ m # ys @ m' # zs"
      by blast
  qed
qed

theorem all_magazines_in_construction_order_witness:
  "Magazine_init scenario_state (PStr ''Vogue'') (PStr ''Fashion'')
     = (Inr 7, step scenario_state (New_Magazine (PStr ''Vogue'') (PStr ''Fashion'')))
   \<and> all_magazines (step scenario_state (New_Magazine (PStr ''Vogue'') (PStr ''Fashion''))) = [0, 1, 7]
   \<and> magazine_article_counts (step scenario_state (New_Magazine (PStr ''Vogue'') (PStr ''Fashion'')))
        = Inr [(0, 2), (1, 1), (7, 0)]
   \<and> all_magazines (foldl step scenario_state
         [New_Magazine (PStr ''Vogue'') (PStr ''Fashion''), New_Magazine (PStr ''V'') (PStr ''Fashion''),
          Assign 0 Attr_name (PStr ''AD'')]) = [0, 1, 7]
   \<and> articles_ok late_state \<and> magazines_ok late_state
   \<and> all_magazines late_state = [0, 1, 7]
   \<and> magazine_article_counts late_state = Inr [(0, 2), (1, 3), (7, 3)]
   \<and> Magazine_top_publisher late_state = Inr (Some 1)"
proof -
  let ?v = "step scenario_state (New_Magazine (PStr ''Vogue'') (PStr ''Fashion''))"
  have init: "Magazine_init scenario_state (PStr ''Vogue'') (PStr ''Fashion'') = (Inr 7, ?v)"
    by (simp add: Magazine_init_cases valid_name_def valid_category_def scenario_state_def)
  have ok: "articles_ok scenario_state" "magazines_ok scenario_state"
    by (simp_all add: scenario_state_def articles_ok_def magazines_ok_def getattr_def heap_at_def
        isinstance_def)
  then have okv: "articles_ok ?v \<and> magazines_ok ?v"
    by (simp add: articles_ok_step magazines_ok_step del: step.simps)
  from all_magazines_in_construction_order [of scenario_state, THEN conjunct1, rule_format, OF init]
  have reg: "all_magazines ?v = [0, 1, 7]"
    by (simp add: scenario_state_def)
  have cnt: "article_count ?v 0 = 2" "article_count ?v (Suc 0) = 1" "article_count ?v 7 = 0"
    by (simp_all add: article_count_def magazine_of_def getattr_def heap_at_def Magazine_init_def
        Magazine_name_setter_def Magazine_category_setter_def new_object_def store_attr_def
        scenario_state_def)
  from all_magazines_in_construction_order [of ?v, THEN conjunct2, THEN conjunct2, THEN conjunct2,
      THEN conjunct1] okv
  have counts: "magazine_article_counts ?v = Inr [(0, 2), (1, 1), (7, 0)]"
    by (simp add: reg cnt del: step.simps)
  have fold: "all_magazines (foldl step scenario_state
         [New_Magazine (PStr ''Vogue'') (PStr ''Fashion''), New_Magazine (PStr ''V'') (PStr ''Fashion''),
          Assign 0 Attr_name (PStr ''AD'')]) = [0, 1, 7]"
    by (simp add: Magazine_init_cases assign_attr_cases valid_name_def valid_category_def
        scenario_state_def)
  have reg_late: "all_magazines late_state = [0, 1, 7]"
    by (simp add: late_state_explicit)
  from all_magazines_in_construction_order [of late_state, THEN conjunct2, THEN conjunct2,
      THEN conjunct2, THEN conjunct1] late_state_ok
  have counts_late: "magazine_article_counts late_state = Inr [(0, 2), (1, 3), (7, 3)]"
    by (simp add: reg_late late_state_counts)
  have arts_late: "all_articles late_state \<noteq> []"
    by (simp add: late_state_explicit)
  have top: "Magazine_top_publisher late_state = Inr (Some 1)"
    by (simp add: Magazine_top_publisher_def counts_late py_max_def get_all_articles_def arts_late)
  from all_magazines_in_construction_order [of late_state _ _ 1, THEN conjunct2, THEN conjunct2,
      THEN conjunct2, THEN conjunct2] late_state_ok top
  have "1 \<in> set (all_magazines late_state)
      \<and> (\<forall>m' \<in> set (all_magazines late_state). article_count late_state m' \<le> article_count late_state 1)"
    by simp
  with init reg counts fold late_state_ok reg_late counts_late top show ?thesis
    by simp
qed

subsection \<open>The contributing authors of a magazine\<close>

text \<open>
  Claim C4, as stated, fails: \<open>article.author\<close> can be assigned any value, and the
  call then need not return. After the scenario's calls and \<open>article.author = 7\<close> on
  the article at address 5, the magazine "Tech Today" has the articles 4 and 5, and
  \<open>contributing_authors()\<close> raises \<open>AttributeError\<close>, since the integer has no
  \<open>articles\<close>.
\<close>

theorem contributing_authors_untyped_counterexample:
  "isinstance (run (scenario_ops @ [Assign 5 Attr_author (PInt 7)])) (PRef 0) Magazine
   \<and> Magazine_articles (run (scenario_ops @ [Assign 5 Attr_author (PInt 7)])) (PRef 0) = Inr [4, 5]
   \<and> Magazine_contributing_authors (run (scenario_ops @ [Assign 5 Attr_author (PInt 7)])) (PRef 0)
        = Inl AttributeError"
  by (simp add: run_snoc scenario_state_run scenario_state_def assign_attr_def store_attr_def
      isinstance_def heap_at_def getattr_def Magazine_articles_def Author_articles_def
      Magazine_contributing_authors_def call_contributors_def Magazine_contributors_def
      call_articles_def list_of_set_def)

text \<open>
  Claim C4, amended. For a magazine whose articles all have an \<open>Author\<close> instance as
  author, \<open>magazine.contributing_authors()\<close> returns \<open>None\<close> if the magazine has no
  contributors, and \<open>None\<close> if no author has written more than 2 articles for this
  magazine; otherwise it returns a list without repetition whose elements are exactly
  the authors who have written more than 2 articles for this magazine. (By
  \<open>run_contributors_are_authors\<close> the condition holds for every magazine in every run
  that never assigns \<open>article.author\<close>.)
\<close>

theorem contributing_authors_of_authors:
  "articles_ok s \<and> isinstance s m Magazine \<and> contributors_are_authors s m \<longrightarrow>
     (Magazine_contributors s m = Inr [] \<longrightarrow> Magazine_contributing_authors s m = Inr None)
     \<and> ((\<forall>au. written_for s au m \<le> 2) \<longrightarrow> Magazine_contributing_authors s m = Inr None)
     \<and> ((\<exists>au. 2 < written_for s au m) \<longrightarrow>
           (\<exists>aus. Magazine_contributing_authors s m = Inr (Some aus)
              \<and> distinct aus
              \<and> set aus = {au. 2 < written_for s au m}))"
proof (intro impI conjI)
  assume asm: "articles_ok s \<and> isinstance s m Magazine \<and> contributors_are_authors s m"
  then have ok: "articles_ok s" and recv: "isinstance s m Magazine"
    and typed: "contributors_are_authors s m"
    by simp_all
  let ?cs = "list_of_set (map (author_of s) (filter (\<lambda>a. magazine_of s a = m) (all_articles s)))"
  note eq = Magazine_contributing_authors_eq [OF ok recv typed]
  {
    assume "Magazine_contributors s m = Inr []"
    then have "?cs = []"
      by (simp add: Magazine_contributors_eq [OF ok])
    then show "Magazine_contributing_authors s m = Inr None"
      by (simp add: eq)
  }
  {
    assume "\<forall>au. written_for s au m \<le> 2"
    then have "filter (\<lambda>au. 2 < written_for s au m) ?cs = []"
      by (simp add: filter_empty_conv not_less)
    then show "Magazine_contributing_authors s m = Inr None"
      by (simp add: eq)
  }
  {
    assume "\<exists>au. 2 < written_for s au m"
    then obtain au where au: "2 < written_for s au m"
      by blast
    then have "au \<in> set ?cs"
      by (intro written_for_contributor) simp
    with au have ne: "filter (\<lambda>au. 2 < written_for s au m) ?cs \<noteq> []"
      by (auto simp: filter_empty_conv)
    have set_eq: "set (filter (\<lambda>au. 2 < written_for s au m) ?cs) = {au. 2 < written_for s au m}"
      using written_for_contributor [of s _ m] by auto
    have "distinct (filter (\<lambda>au. 2 < written_for s au m) ?cs)"
      by (simp add: list_of_set_def)
    with ne set_eq show "\<exists>aus. Magazine_contributing_authors s m = Inr (Some aus)
              \<and> distinct aus \<and> set aus = {au. 2 < written_for s au m}"
      by (simp add: eq Let_def)
  }
qed

theorem contributing_authors_of_authors_witness:
  "articles_ok busy_state
   \<and> isinstance busy_state (PRef 0) Magazine \<and> contributors_are_authors busy_state (PRef 0)
   \<and> written_for busy_state (PRef 2) (PRef 0) = 3
   \<and> written_for busy_state (PRef 3) (PRef 0) = 1
   \<and> Magazine_contributing_authors busy_state (PRef 0) = Inr (Some [PRef 2])
   \<and> isinstance busy_state (PRef 9) Magazine \<and> contributors_are_authors busy_state (PRef 9)
   \<and> Magazine_contributors busy_state (PRef 9) = Inr []
   \<and> Magazine_contributing_authors busy_state (PRef 9) = Inr None
   \<and> isinstance busy_state (PRef 1) Magazine \<and> contributors_are_authors busy_state (PRef 1)
   \<and> Magazine_contributors busy_state (PRef 1) = Inr [PRef 2]
   \<and> written_for busy_state (PRef 2) (PRef 1) = 1
   \<and> Magazine_contributing_authors busy_state (PRef 1) = Inr None"
proof -
  have recv: "isinstance busy_state (PRef 0) Magazine" "isinstance busy_state (PRef 9) Magazine"
    "isinstance busy_state (PRef 1) Magazine"
    by (simp_all add: busy_state_explicit isinstance_def heap_at_def)
  have typed: "contributors_are_authors busy_state (PRef 0)"
    "contributors_are_authors busy_state (PRef 9)" "contributors_are_authors busy_state (PRef 1)"
    by (simp_all add: busy_state_explicit contributors_are_authors_def isinstance_def heap_at_def
        getattr_def magazine_of_def author_of_def)
  have w: "written_for busy_state (PRef 2) (PRef 0) = 3" "written_for busy_state (PRef 3) (PRef 0) = 1"
    "written_for busy_state (PRef 2) (PRef 1) = 1"
    by (simp_all add: busy_state_explicit written_for_def getattr_def heap_at_def
        magazine_of_def author_of_def)
  have c: "Magazine_contributors busy_state (PRef 9) = Inr []"
    "Magazine_contributors busy_state (PRef 1) = Inr [PRef 2]"
    by (simp_all add: busy_state_explicit Magazine_contributors_def Magazine_articles_def
        getattr_def heap_at_def list_of_set_def)
  have r0: "Magazine_contributing_authors busy_state (PRef 0) = Inr (Some [PRef 2])"
    by (simp add: busy_state_explicit Magazine_contributing_authors_def call_contributors_def
        Magazine_contributors_def Magazine_articles_def Author_articles_def call_articles_def
        isinstance_def getattr_def heap_at_def list_of_set_def)
  have r1: "Magazine_contributing_authors busy_state (PRef 1) = Inr None"
    by (simp add: busy_state_explicit Magazine_contributing_authors_def call_contributors_def
        Magazine_contributors_def Magazine_articles_def Author_articles_def call_articles_def
        isinstance_def getattr_def heap_at_def list_of_set_def)
  from contributing_authors_of_authors [of busy_state "PRef 9"] busy_state_ok recv typed c
  have r9: "Magazine_contributing_authors busy_state (PRef 9) = Inr None"
    by simp
  from busy_state_ok recv typed w c r0 r1 r9 contributing_authors_of_authors [of busy_state "PRef 0"]
  show ?thesis
    by simp
qed

subsection \<open>The topic areas of an author\<close>

text \<open>
  Claim C8, as stated, fails: \<open>article.magazine\<close> can be assigned any value. After the
  scenario's calls and \<open>article.magazine = 7\<close> on the article at address 6, Alice has
  the articles 4 and 6, and \<open>topic_areas()\<close> raises \<open>AttributeError\<close>, since the integer
  has no \<open>category\<close>.
\<close>

theorem topic_areas_untyped_counterexample:
  "isinstance (run (scenario_ops @ [Assign 6 Attr_magazine (PInt 7)])) (PRef 2) Author
   \<and> Author_articles (run (scenario_ops @ [Assign 6 Attr_magazine (PInt 7)])) (PRef 2) = Inr [4, 6]
   \<and> Author_topic_areas (run (scenario_ops @ [Assign 6 Attr_magazine (PInt 7)])) (PRef 2)
        = Inl AttributeError"
  by (simp add: run_snoc scenario_state_run scenario_state_def assign_attr_def store_attr_def
      isinstance_def heap_at_def getattr_def Author_articles_def
      Author_topic_areas_def call_magazines_def Author_magazines_def
      call_articles_def list_of_set_def)

text \<open>
  Claim C8, amended. For an author whose articles all have a magazine whose
  \<open>category\<close> can be read, \<open>author.topic_areas()\<close> returns \<open>None\<close> if the author has no
  articles, and otherwise a list without repetition whose elements are exactly the
  categories of the magazines of the author's articles. (By
  \<open>run_registered_category\<close> the category of every registered magazine can be read,
  in every run.)
\<close>

theorem topic_areas_of_categorised_magazines:
  "articles_ok s \<and> isinstance s self Author \<and> magazines_have_category s self \<longrightarrow>
     (Author_articles s self = Inr [] \<longrightarrow> Author_topic_areas s self = Inr None)
     \<and> (Author_articles s self \<noteq> Inr [] \<longrightarrow>
           (\<exists>cats. Author_topic_areas s self = Inr (Some cats)
              \<and> distinct cats
              \<and> set cats = {c. \<exists>a \<in> set (all_articles s).
                                 author_of s a = self
                                 \<and> getattr s (magazine_of s a) ''category'' = Inr c}))"
proof (intro impI conjI)
  assume asm: "articles_ok s \<and> isinstance s self Author \<and> magazines_have_category s self"
  then have ok: "articles_ok s" and recv: "isinstance s self Author"
    and typed: "magazines_have_category s self"
    by simp_all
  let ?arts = "filter (\<lambda>a. author_of s a = self) (all_articles s)"
  note eq = Author_topic_areas_eq [OF ok recv typed]
  note arts = Author_articles_filter [OF ok, of self]
  {
    assume "Author_articles s self = Inr []"
    then show "Author_topic_areas s self = Inr None"
      by (simp add: eq arts)
  }
  {
    assume "Author_articles s self \<noteq> Inr []"
    then have ne: "?arts \<noteq> []"
      by (simp add: arts)
    let ?cats = "list_of_set (map (category_of s) (list_of_set (map (magazine_of s) ?arts)))"
    have cat: "\<And>a. a \<in> set (all_articles s) \<Longrightarrow> author_of s a = self \<Longrightarrow>
        getattr s (magazine_of s a) ''category'' = Inr (category_of s (magazine_of s a))"
      using typed by (simp add: magazines_have_category_def getattr_category)
    have "set ?cats = {c. \<exists>a \<in> set (all_articles s).
        author_of s a = self \<and> getattr s (magazine_of s a) ''category'' = Inr c}"
      by (auto simp: list_of_set_def cat)
    moreover have "distinct ?cats"
      by (simp add: list_of_set_def)
    ultimately show "\<exists>cats. Author_topic_areas s self = Inr (Some cats)
        \<and> distinct cats
        \<and> set cats = {c. \<exists>a \<in> set (all_articles s).
              author_of s a = self \<and> getattr s (magazine_of s a) ''category'' = Inr c}"
      using ne by (simp add: eq)
  }
qed

theorem topic_areas_of_categorised_magazines_witness:
  "articles_ok busy_state
   \<and> isinstance busy_state (PRef 10) Author \<and> magazines_have_category busy_state (PRef 10)
   \<and> Author_articles busy_state (PRef 10) = Inr []
   \<and> Author_topic_areas busy_state (PRef 10) = Inr None
   \<and> isinstance busy_state (PRef 2) Author \<and> magazines_have_category busy_state (PRef 2)
   \<and> Author_articles busy_state (PRef 2) = Inr [4, 6, 7, 8]
   \<and> (\<exists>cats. Author_topic_areas busy_state (PRef 2) = Inr (Some cats)
         \<and> distinct cats \<and> set cats = {PStr ''Technology'', PStr ''Health''})
   \<and> isinstance busy_state (PRef 3) Author \<and> magazines_have_category busy_state (PRef 3)
   \<and> Author_topic_areas busy_state (PRef 3) = Inr (Some [PStr ''Technology''])"
proof -
  have recv: "isinstance busy_state (PRef 10) Author" "isinstance busy_state (PRef 2) Author"
    "isinstance busy_state (PRef 3) Author"
    by (simp_all add: busy_state_explicit isinstance_def heap_at_def)
  have typed: "magazines_have_category busy_state (PRef 10)"
    "magazines_have_category busy_state (PRef 2)" "magazines_have_category busy_state (PRef 3)"
    by (simp_all add: busy_state_explicit magazines_have_category_def heap_at_def
        getattr_def magazine_of_def author_of_def)
  have a: "Author_articles busy_state (PRef 10) = Inr []"
    "Author_articles busy_state (PRef 2) = Inr [4, 6, 7, 8]"
    by (simp_all add: busy_state_explicit Author_articles_def getattr_def heap_at_def)
  from topic_areas_of_categorised_magazines [of busy_state "PRef 10"] busy_state_ok recv typed a
  have t10: "Author_topic_areas busy_state (PRef 10) = Inr None"
    by simp
  have t2: "Author_topic_areas busy_state (PRef 2) = Inr (Some [PStr ''Health'', PStr ''Technology''])"
    by (simp add: busy_state_explicit Author_topic_areas_def call_magazines_def Author_magazines_def
        call_articles_def Author_articles_def isinstance_def getattr_def heap_at_def list_of_set_def)
  have t3: "Author_topic_areas busy_state (PRef 3) = Inr (Some [PStr ''Technology''])"
    by (simp add: busy_state_explicit Author_topic_areas_def call_magazines_def Author_magazines_def
        call_articles_def Author_articles_def isinstance_def getattr_def heap_at_def list_of_set_def)
  from t2 have t2': "\<exists>cats. Author_topic_areas busy_state (PRef 2) = Inr (Some cats)
         \<and> distinct cats \<and> set cats = {PStr ''Technology'', PStr ''Health''}"
    by auto
  from busy_state_ok recv typed a t10 t2' t3
    topic_areas_of_categorised_magazines [of busy_state "PRef 2"]
  show ?thesis
    by simp
qed

end
